theory Spec2Isabelle
  imports Main "HOL-Library.Word"
begin

unbundle bit_operations_syntax

section \<open>The OMX offloading rpmsg driver (drivers/rpmsg/rpmsg\_omx.c)\<close>

text \<open>
  The driver is written for the 32-bit ARM cores of OMAP: \<open>int\<close>, \<open>long\<close>,
  \<open>size_t\<close>, \<open>phys_addr_t\<close> and pointers are 32 bits wide, memory is
  little-endian. The model is built with \<open>CONFIG_DMA_SHARED_BUFFER\<close> enabled.
  Every handler runs as one atomic step on the instance it is given; what other contexts
  (the dispatcher callback, the crash path, a signal) do while a handler sleeps is an
  explicit list of events handed to the wait.
\<close>

type_synonym u8 = "8 word"
type_synonym u32 = "32 word"
type_synonym u64 = "64 word"

subsection \<open>Return values\<close>

text \<open>
  The kernel's negative error numbers. \<open>EEXT n\<close> stands for an error number
  handed back by a function outside this file (dma-buf, remoteproc, the rpmsg bus),
  which the driver passes on as it is.
\<close>

datatype errno =
  ENOMEM | EIO | EINVAL | ENXIO | EISCONN | ETIMEDOUT | ENOTTY | EFAULT | EBUSY
  | ENOTCONN | EAGAIN | ERESTARTSYS | EEXT nat

text \<open>
  What a call of a file operation does: it returns a non-negative value, it returns
  a negative error number, it sleeps and is never woken, or it touches memory outside
  the object it was given (undefined in C, so nothing is said about what follows).
\<close>

datatype cret = Ret int | Err errno | Blocked | UndefinedBehaviour

subsection \<open>The declarations of linux/rpmsg\_omx.h\<close>

text \<open>
  The header linux/rpmsg\_omx.h is not part of the sources. The sizes, offsets and
  ioctl numbers it defines are taken as parameters, collected in one record.
\<close>

record rpmsg_omx_h =
  sizeof_omx_msg_hdr :: nat
  sizeof_omx_conn_rsp :: nat
  sizeof_omx_conn_req :: nat
  offsetof_omx_packet_data :: nat
  OMX_IOC_MAGIC :: u32
  OMX_IOC_MAXNR :: u32
  OMX_IOCCONNECT :: u32
  OMX_IOCBUFREGISTER :: u32
  OMX_IOCBUFUNREGISTER :: u32

text \<open>
  Modelled from the spec: the enumeration of connection states, declared in the absent
  header linux/rpmsg\_omx.h. The spec names the states Unconnected, Connected and Failed;
  the source uses the constants below.
\<close>

datatype omx_state = OMX_UNCONNECTED | OMX_CONNECTED | OMX_FAIL

text \<open>
  Modelled from the spec: the enumeration of message types, declared in the absent
  header linux/rpmsg\_omx.h. The spec lists ConnectRequest, ConnectResponse, RawData and
  Disconnect; \<open>OMX_OTHER v\<close> is any other value \<open>v\<close> of the type field.
\<close>

datatype omx_msg_type = OMX_CONN_REQ | OMX_CONN_RSP | OMX_DISCONNECT | OMX_RAW_MSG | OMX_OTHER u32

subsection \<open>Data\<close>

text \<open>\<open>struct sg_table\<close>, as far as the driver reads it: the first segment's DMA
  address and offset.\<close>

record sg_table =
  sg_dma_address :: u32
  sg_offset :: u32

text \<open>\<open>struct rpmsg_omx_dma_info\<close>; buffers and attachments are named by numbers.\<close>

record rpmsg_omx_dma_info =
  dbuf :: nat
  attach :: nat
  sgt :: sg_table

text \<open>
  \<open>struct rpmsg_omx_instance\<close>. \<open>queue\<close> holds the payloads of the queued
  sk\_buffs, oldest first; \<open>reply_arrived\<close> is the \<open>done\<close> counter of the
  completion; \<open>ept\<close> is \<open>ept->addr\<close> and \<open>ept_live\<close> tells whether
  the endpoint still exists; \<open>dma_idr\<close> lists the ids in use with their pointers.
\<close>

record rpmsg_omx_instance =
  queue :: "u8 list list"
  reply_arrived :: u32
  ept :: u32
  ept_live :: bool
  dst :: u32
  state :: omx_state
  dma_idr :: "(int \<times> rpmsg_omx_dma_info) list"

text \<open>\<open>struct rpmsg_channel\<close>, as far as the driver reads it.\<close>

record rpmsg_channel =
  chan_src :: u32
  chan_dst :: u32

text \<open>
  An outbound message handed to \<open>rpmsg_send_offchannel\<close>: source and destination
  address, the three header fields and the bytes after the header.
\<close>

record omx_tx =
  tx_src :: u32
  tx_dst :: u32
  tx_type :: omx_msg_type
  tx_flags :: u32
  tx_len :: u32
  tx_data :: "u8 list"

text \<open>
  An inbound message as the callback sees it: \<open>rx_len\<close> is the argument
  \<open>len\<close> (the number of bytes received at \<open>data\<close>), \<open>rx_type\<close> and
  \<open>rx_hdr_len\<close> are \<open>hdr->type\<close> and \<open>hdr->len\<close>,
  \<open>rx_rsp_status\<close> and \<open>rx_rsp_addr\<close> are what the cast of
  \<open>hdr->data\<close> to \<open>struct omx_conn_rsp *\<close> reads, and \<open>rx_data i\<close>
  is the byte at \<open>hdr->data + i\<close>, whether it was received or merely lies there.
\<close>

record omx_rx =
  rx_len :: int
  rx_type :: omx_msg_type
  rx_hdr_len :: u32
  rx_rsp_status :: u32
  rx_rsp_addr :: u32
  rx_data :: "nat \<Rightarrow> u8"

subsection \<open>The dispatcher callback\<close>

text \<open>The guard of line 304; \<open>len\<close> is converted to \<open>size_t\<close> on both sides.\<close>

definition cb_truncated :: "rpmsg_omx_h \<Rightarrow> int \<Rightarrow> u32 \<Rightarrow> bool" where
  "cb_truncated h len hlen =
     ((word_of_int len :: u32) < of_nat (sizeof_omx_msg_hdr h)
      \<or> hlen < word_of_int len - of_nat (sizeof_omx_msg_hdr h))"

text \<open>\<open>memcpy(skbdata, hdr->data, hdr->len)\<close>: the bytes at \<open>hdr->data\<close>.\<close>

definition memcpy_from :: "(nat \<Rightarrow> u8) \<Rightarrow> nat \<Rightarrow> u8 list" where
  "memcpy_from src n = map src [0..<n]"

text \<open>\<open>rpmsg_omx_cb\<close>; \<open>skb_ok\<close> tells whether \<open>alloc_skb\<close> succeeds.\<close>

definition rpmsg_omx_cb ::
  "rpmsg_omx_h \<Rightarrow> omx_rx \<Rightarrow> bool \<Rightarrow> rpmsg_omx_instance \<Rightarrow> rpmsg_omx_instance" where
  "rpmsg_omx_cb h m skb_ok omx =
     (if cb_truncated h (rx_len m) (rx_hdr_len m) then omx
      else case rx_type m of
        OMX_CONN_RSP \<Rightarrow>
          if rx_hdr_len m < of_nat (sizeof_omx_conn_rsp h) then omx
          else
            let omx1 = omx\<lparr>dst := rx_rsp_addr m\<rparr>;
                omx2 = (if rx_rsp_status m \<noteq> 0 then omx1\<lparr>state := OMX_FAIL\<rparr>
                        else if state omx1 \<noteq> OMX_FAIL then omx1\<lparr>state := OMX_CONNECTED\<rparr>
                        else omx1)
            in omx2\<lparr>reply_arrived := reply_arrived omx2 + 1\<rparr>
      | OMX_RAW_MSG \<Rightarrow>
          if \<not> skb_ok then omx
          else omx\<lparr>queue := queue omx @ [memcpy_from (rx_data m) (unat (rx_hdr_len m))]\<rparr>
      | _ \<Rightarrow> omx)"

subsection \<open>The crash path\<close>

text \<open>
  The body of the loop of \<open>rpmsg_omx_remove\<close> (lines 820 to 829) for one instance;
  \<open>complete_all\<close> adds \<open>UINT_MAX / 2\<close> to the counter.
\<close>

definition omx_crash :: "rpmsg_omx_instance \<Rightarrow> rpmsg_omx_instance" where
  "omx_crash omx =
     omx\<lparr>state := OMX_FAIL, reply_arrived := reply_arrived omx + 0x7FFFFFFF, ept_live := False\<rparr>"

subsection \<open>What happens while a handler sleeps\<close>

datatype omx_event = Callback omx_rx bool | Crash

datatype wait_event = Happens omx_event | Signal

definition omx_event :: "rpmsg_omx_h \<Rightarrow> omx_event \<Rightarrow> rpmsg_omx_instance \<Rightarrow> rpmsg_omx_instance" where
  "omx_event h e omx = (case e of Callback m skb_ok \<Rightarrow> rpmsg_omx_cb h m skb_ok omx | Crash \<Rightarrow> omx_crash omx)"

datatype wake = Woken | Interrupted | Sleeping

text \<open>
  \<open>wait_event_interruptible(omx->readq, !skb_queue_empty(&omx->queue) || omx->state == OMX_FAIL)\<close>:
  the condition is tested first; a signal ends the sleep; when nothing more happens the
  sleeper stays asleep.
\<close>

definition readq_cond :: "rpmsg_omx_instance \<Rightarrow> bool" where
  "readq_cond omx = (queue omx \<noteq> [] \<or> state omx = OMX_FAIL)"

fun wait_event_interruptible ::
  "rpmsg_omx_h \<Rightarrow> rpmsg_omx_instance \<Rightarrow> wait_event list \<Rightarrow> wake \<times> rpmsg_omx_instance" where
  "wait_event_interruptible h omx [] = (if readq_cond omx then (Woken, omx) else (Sleeping, omx))"
| "wait_event_interruptible h omx (Signal # evs) =
     (if readq_cond omx then (Woken, omx) else (Interrupted, omx))"
| "wait_event_interruptible h omx (Happens e # evs) =
     (if readq_cond omx then (Woken, omx) else wait_event_interruptible h (omx_event h e omx) evs)"

subsection \<open>read\<close>

text \<open>
  The part of \<open>rpmsg_omx_read\<close> from line 609 on, entered with the lock held.
  \<open>user_ok\<close> tells whether \<open>copy_to_user\<close> succeeds. The result is the return
  value, the bytes copied to the caller, and the instance.
\<close>

definition read_locked ::
  "rpmsg_omx_instance \<Rightarrow> nat \<Rightarrow> bool \<Rightarrow> cret \<times> u8 list \<times> rpmsg_omx_instance" where
  "read_locked omx len user_ok =
     (if state omx = OMX_FAIL then (Err ENXIO, [], omx)
      else case queue omx of
        [] \<Rightarrow> (Err EIO, [], omx)
      | skb # rest \<Rightarrow>
          let use = min len (length skb); omx' = omx\<lparr>queue := rest\<rparr>
          in if \<not> user_ok then (Err EFAULT, [], omx')
             else (Ret (int use), take use skb, omx'))"

text \<open>\<open>rpmsg_omx_read\<close>; \<open>nonblock\<close> is \<open>filp->f_flags & O_NONBLOCK\<close>.\<close>

definition rpmsg_omx_read ::
  "rpmsg_omx_h \<Rightarrow> rpmsg_omx_instance \<Rightarrow> bool \<Rightarrow> nat \<Rightarrow> bool \<Rightarrow> wait_event list
     \<Rightarrow> cret \<times> u8 list \<times> rpmsg_omx_instance" where
  "rpmsg_omx_read h omx nonblock len user_ok evs =
     (if state omx = OMX_UNCONNECTED then (Err ENOTCONN, [], omx)
      else if queue omx = [] then
        (if nonblock then (Err EAGAIN, [], omx)
         else case wait_event_interruptible h omx evs of
           (Interrupted, omx') \<Rightarrow> (Err ERESTARTSYS, [], omx')
         | (Sleeping, omx') \<Rightarrow> (Blocked, [], omx')
         | (Woken, omx') \<Rightarrow> read_locked omx' len user_ok)
      else read_locked omx len user_ok)"

subsection \<open>poll\<close>

text \<open>The bits of asm-generic/poll.h.\<close>

definition POLLIN :: u32 where "POLLIN = 0x0001"
definition POLLOUT :: u32 where "POLLOUT = 0x0004"
definition POLLERR :: u32 where "POLLERR = 0x0008"
definition POLLRDNORM :: u32 where "POLLRDNORM = 0x0040"
definition POLLWRNORM :: u32 where "POLLWRNORM = 0x0100"

definition rpmsg_omx_poll :: "rpmsg_omx_instance \<Rightarrow> u32" where
  "rpmsg_omx_poll omx =
     (let mask = 0;
          mask = (if queue omx \<noteq> [] then mask OR (POLLIN OR POLLRDNORM) else mask);
          mask = mask OR (POLLOUT OR POLLWRNORM);
          mask = (if state omx = OMX_FAIL then POLLERR else mask)
      in mask)"

subsection \<open>What the rest of the kernel does during one call\<close>

text \<open>
  The functions the driver calls but does not define, each given by its result:
  \<open>kmalloc\<close>, \<open>dma_buf_get\<close>, \<open>dma_buf_attach\<close>,
  \<open>dma_buf_map_attachment\<close>, \<open>idr_pre_get\<close>, the failure (if any) of
  \<open>idr_get_new_above\<close>, \<open>rproc_pa_to_da\<close>, the failure (if any) of
  \<open>rpmsg_send_offchannel\<close>; then the events that happen while the call sleeps,
  and the jiffies left when a completion is signalled before the timeout.
\<close>

record kenv =
  kmalloc_ok :: bool
  dma_buf_get :: "int \<Rightarrow> errno + nat"
  dma_buf_attach :: "nat \<Rightarrow> errno + nat"
  dma_buf_map_attachment :: "nat \<Rightarrow> errno + sg_table"
  idr_pre_get_ok :: bool
  idr_get_new_err :: "errno option"
  rproc_pa_to_da :: "u32 \<Rightarrow> errno + u64"
  rpmsg_send_err :: "errno option"
  events :: "wait_event list"
  timeleft :: nat

text \<open>
  What the driver holds of the kernel's buffer-sharing resources: the number of live
  \<open>rpmsg_omx_dma_info\<close> allocations, the buffer references taken and not yet put,
  the attachments and the mappings.
\<close>

record dma_held =
  infos :: nat
  bufs :: "nat list"
  attached :: "(nat \<times> nat) list"
  mapped :: "(nat \<times> sg_table) list"

subsection \<open>The idr\<close>

definition idr_find :: "(int \<times> 'a) list \<Rightarrow> int \<Rightarrow> 'a option" where
  "idr_find idr key = map_of idr key"

definition idr_remove :: "(int \<times> 'a) list \<Rightarrow> int \<Rightarrow> (int \<times> 'a) list" where
  "idr_remove idr key = filter (\<lambda>p. fst p \<noteq> key) idr"

text \<open>The id \<open>idr_get_new_above\<close> hands out: the smallest one from \<open>start\<close> on
  that is not in use.\<close>

definition idr_new_id_above :: "(int \<times> 'a) list \<Rightarrow> int \<Rightarrow> int" where
  "idr_new_id_above idr start =
     (let ks = map fst idr; top = fold max ks start
      in case find (\<lambda>i. i \<notin> set ks) [start..top] of Some i \<Rightarrow> i | None \<Rightarrow> top + 1)"

subsection \<open>Pinning and unpinning buffers\<close>

text \<open>The labels \<open>err\<close>, \<open>err_buf_put\<close>, \<open>err_detach\<close> and \<open>err_unmap\<close>
  of \<open>rpmsg_omx_pin_buffer\<close>; each falls through to the next.\<close>

definition pin_err :: "dma_held \<Rightarrow> dma_held" where
  "pin_err R = R\<lparr>infos := infos R - 1\<rparr>"

definition pin_err_buf_put :: "nat \<Rightarrow> dma_held \<Rightarrow> dma_held" where
  "pin_err_buf_put b R = pin_err (R\<lparr>bufs := remove1 b (bufs R)\<rparr>)"

definition pin_err_detach :: "nat \<Rightarrow> nat \<Rightarrow> dma_held \<Rightarrow> dma_held" where
  "pin_err_detach b a R = pin_err_buf_put b (R\<lparr>attached := remove1 (b, a) (attached R)\<rparr>)"

definition pin_err_unmap :: "nat \<Rightarrow> nat \<Rightarrow> sg_table \<Rightarrow> dma_held \<Rightarrow> dma_held" where
  "pin_err_unmap b a s R = pin_err_detach b a (R\<lparr>mapped := remove1 (a, s) (mapped R)\<rparr>)"

definition rpmsg_omx_pin_buffer ::
  "kenv \<Rightarrow> int \<Rightarrow> rpmsg_omx_instance \<Rightarrow> dma_held \<Rightarrow> cret \<times> rpmsg_omx_instance \<times> dma_held" where
  "rpmsg_omx_pin_buffer k fd omx R =
     (if \<not> kmalloc_ok k then (Err ENOMEM, omx, R)
      else
        let R0 = R\<lparr>infos := Suc (infos R)\<rparr> in
        (case dma_buf_get k fd of
           Inl e \<Rightarrow> (Err e, omx, pin_err R0)
         | Inr b \<Rightarrow>
            let R1 = R0\<lparr>bufs := b # bufs R0\<rparr> in
            (case dma_buf_attach k b of
               Inl e \<Rightarrow> (Err e, omx, pin_err_buf_put b R1)
             | Inr a \<Rightarrow>
                let R2 = R1\<lparr>attached := (b, a) # attached R1\<rparr> in
                (case dma_buf_map_attachment k a of
                   Inl e \<Rightarrow> (Err e, omx, pin_err_detach b a R2)
                 | Inr s \<Rightarrow>
                    let R3 = R2\<lparr>mapped := (a, s) # mapped R2\<rparr> in
                    (if \<not> idr_pre_get_ok k then (Err ENOMEM, omx, pin_err_unmap b a s R3)
                     else (case idr_get_new_err k of
                        Some e \<Rightarrow> (Err e, omx, pin_err_unmap b a s R3)
                      | None \<Rightarrow>
                          let new_id = idr_new_id_above (dma_idr omx) fd;
                              dma = \<lparr>dbuf = b, attach = a, sgt = s\<rparr>;
                              omx1 = omx\<lparr>dma_idr := (new_id, dma) # dma_idr omx\<rparr>
                          in (if fd \<noteq> new_id
                              then (Err EINVAL,
                                    omx1\<lparr>dma_idr := idr_remove (dma_idr omx1) new_id\<rparr>,
                                    pin_err_unmap b a s R3)
                              else (Ret 0, omx1, R3))))))))"

text \<open>\<open>rpmsg_omx_dma_find\<close>: the reference taken by its own \<open>dma_buf_get\<close> is
  kept; the result is the entry and the physical address of its first segment.\<close>

definition rpmsg_omx_dma_find ::
  "kenv \<Rightarrow> rpmsg_omx_instance \<Rightarrow> int \<Rightarrow> dma_held
     \<Rightarrow> (rpmsg_omx_dma_info \<times> u32) option \<times> dma_held" where
  "rpmsg_omx_dma_find k omx fd R =
     (let R' = (case dma_buf_get k fd of Inr b \<Rightarrow> R\<lparr>bufs := b # bufs R\<rparr> | Inl e \<Rightarrow> R)
      in (case idr_find (dma_idr omx) fd of
            None \<Rightarrow> None
          | Some dma \<Rightarrow> Some (dma, sg_dma_address (sgt dma) + sg_offset (sgt dma)),
          R'))"

definition rpmsg_omx_remove_dma_buffer :: "rpmsg_omx_dma_info \<Rightarrow> dma_held \<Rightarrow> dma_held" where
  "rpmsg_omx_remove_dma_buffer dma R =
     R\<lparr>mapped := remove1 (attach dma, sgt dma) (mapped R),
       attached := remove1 (dbuf dma, attach dma) (attached R),
       bufs := remove1 (dbuf dma) (bufs R),
       infos := infos R - 1\<rparr>"

definition rpmsg_omx_unpin_buffer ::
  "kenv \<Rightarrow> int \<Rightarrow> rpmsg_omx_instance \<Rightarrow> dma_held \<Rightarrow> cret \<times> rpmsg_omx_instance \<times> dma_held" where
  "rpmsg_omx_unpin_buffer k fd omx R =
     (case rpmsg_omx_dma_find k omx fd R of
        (None, R') \<Rightarrow> (Err EINVAL, omx, R')
      | (Some (dma, pa), R') \<Rightarrow>
          (Ret 0, omx\<lparr>dma_idr := idr_remove (dma_idr omx) fd\<rparr>, rpmsg_omx_remove_dma_buffer dma R'))"

subsection \<open>Translating buffer handles\<close>

text \<open>\<open>_rpmsg_pa_to_da\<close>.\<close>

definition rpmsg_pa_to_da :: "kenv \<Rightarrow> rpmsg_omx_instance \<Rightarrow> u32 \<Rightarrow> errno + u32" where
  "rpmsg_pa_to_da k omx pa =
     (if state omx = OMX_FAIL then Inl ENXIO
      else case rproc_pa_to_da k pa of
        Inl e \<Rightarrow> Inl e
      | Inr temp_da \<Rightarrow> Inr (ucast temp_da))"

text \<open>\<open>_rpmsg_omx_buffer_get\<close>; \<open>int fd = buffer\<close> reads the 32 bits as signed.\<close>

definition rpmsg_omx_buffer_get ::
  "kenv \<Rightarrow> rpmsg_omx_instance \<Rightarrow> u32 \<Rightarrow> dma_held \<Rightarrow> (errno + u32) \<times> dma_held" where
  "rpmsg_omx_buffer_get k omx buffer R =
     (case rpmsg_omx_dma_find k omx (sint buffer) R of
        (Some (dma, pa), R') \<Rightarrow> (rpmsg_pa_to_da k omx pa, R')
      | (None, R') \<Rightarrow> (Inl EIO, R'))"

text \<open>
  Reading and writing a 32-bit value at byte index \<open>i\<close> of a byte array, little-endian.
  \<open>None\<close>: the four bytes do not lie inside the array.
\<close>

definition load32 :: "u8 list \<Rightarrow> int \<Rightarrow> u32 option" where
  "load32 mem i =
     (if 0 \<le> i \<and> nat i + 4 \<le> length mem
      then Some (of_nat (unat (mem ! nat i) + 256 * unat (mem ! (nat i + 1))
                         + 65536 * unat (mem ! (nat i + 2)) + 16777216 * unat (mem ! (nat i + 3))))
      else None)"

definition store32 :: "u8 list \<Rightarrow> int \<Rightarrow> u32 \<Rightarrow> u8 list" where
  "store32 mem i v =
     take (nat i) mem
     @ [ucast v, ucast (drop_bit 8 v), ucast (drop_bit 16 v), ucast (drop_bit 24 v)]
     @ drop (nat i + 4) mem"

text \<open>
  The loop of \<open>_rpmsg_omx_map_buf\<close>: \<open>n\<close> handles are left, \<open>buffer\<close> points to
  byte index \<open>i\<close> of the payload area \<open>mem\<close>. \<open>None\<close>: \<open>buffer\<close> points
  outside the payload area.
\<close>

fun map_buf_loop ::
  "kenv \<Rightarrow> rpmsg_omx_instance \<Rightarrow> nat \<Rightarrow> int \<Rightarrow> u8 list \<Rightarrow> dma_held
     \<Rightarrow> (errno + u8 list) option \<times> dma_held" where
  "map_buf_loop k omx 0 i mem R = (Some (Inr mem), R)"
| "map_buf_loop k omx (Suc n) i mem R =
     (case load32 mem i of
        None \<Rightarrow> (None, R)
      | Some b \<Rightarrow>
          (case rpmsg_omx_buffer_get k omx b R of
             (Inl e, R') \<Rightarrow> (Some (Inl e), R')
           | (Inr da, R') \<Rightarrow> map_buf_loop k omx n (i + 4) (store32 mem i da) R'))"

text \<open>
  \<open>_rpmsg_omx_map_buf\<close> on the payload area \<open>mem\<close> (the bytes from
  \<open>hdr->data\<close> to the end of \<open>kbuf\<close>), which the caller passes as the packet.
  The enumeration has no negative member, so \<open>maptype < RPC_OMX_MAP_INFO_NONE\<close>
  never holds and the test is \<open>maptype > 3\<close>, unsigned.
\<close>

definition rpmsg_omx_map_buf ::
  "rpmsg_omx_h \<Rightarrow> kenv \<Rightarrow> rpmsg_omx_instance \<Rightarrow> u8 list \<Rightarrow> dma_held
     \<Rightarrow> (errno + u8 list) option \<times> dma_held" where
  "rpmsg_omx_map_buf h k omx mem R =
     (let data = int (offsetof_omx_packet_data h) in
      case load32 mem data of
        None \<Rightarrow> (None, R)
      | Some maptype \<Rightarrow>
          (case load32 mem (data + 4) of
             None \<Rightarrow> (None, R)
           | Some offset \<Rightarrow>
               if 3 < maptype then (Some (Inl EINVAL), R)
               else map_buf_loop k omx (unat maptype) (data + sint offset) mem R))"

subsection \<open>write\<close>

text \<open>
  \<open>rpmsg_omx_write\<close>. \<open>stack\<close> is what the payload area of the uninitialised
  \<open>kbuf\<close> holds on entry, \<open>umem\<close> the bytes readable at \<open>ubuf\<close>
  (\<open>copy_from_user\<close> faults when they are fewer than it is asked for);
  \<open>write_use\<close> is the local \<open>use\<close> and \<open>write_kbuf\<close> the payload area
  after the copy. The result is the return value, the messages handed to
  \<open>rpmsg_send_offchannel\<close>, and the resources held. The instance is not changed.
\<close>

definition write_use :: "rpmsg_omx_h \<Rightarrow> nat \<Rightarrow> nat" where
  "write_use h len = min (512 - sizeof_omx_msg_hdr h) len"

definition write_kbuf :: "rpmsg_omx_h \<Rightarrow> u8 list \<Rightarrow> u8 list \<Rightarrow> nat \<Rightarrow> u8 list" where
  "write_kbuf h stack umem len = take (write_use h len) umem @ drop (write_use h len) stack"

definition rpmsg_omx_write ::
  "rpmsg_omx_h \<Rightarrow> kenv \<Rightarrow> rpmsg_omx_instance \<Rightarrow> u8 list \<Rightarrow> u8 list \<Rightarrow> nat \<Rightarrow> dma_held
     \<Rightarrow> cret \<times> omx_tx list \<times> dma_held" where
  "rpmsg_omx_write h k omx stack umem len R =
     (if state omx = OMX_UNCONNECTED then (Err ENOTCONN, [], R)
      else
        let use = write_use h len in
        if length umem < use then (Err EFAULT, [], R)
        else
          (case rpmsg_omx_map_buf h k omx (write_kbuf h stack umem len) R of
             (None, R') \<Rightarrow> (UndefinedBehaviour, [], R')
           | (Some (Inl e), R') \<Rightarrow> (Err e, [], R')
           | (Some (Inr mem'), R') \<Rightarrow>
               if state omx = OMX_FAIL then (Err ENXIO, [], R')
               else
                 let msg = \<lparr>tx_src = ept omx, tx_dst = dst omx, tx_type = OMX_RAW_MSG,
                            tx_flags = 0, tx_len = of_nat use, tx_data = take use mem'\<rparr>
                 in (case rpmsg_send_err k of
                       Some e \<Rightarrow> (Err e, [msg], R')
                     | None \<Rightarrow> (Ret (int use), [msg], R'))))"

subsection \<open>connect\<close>

text \<open>
  \<open>wait_for_completion_interruptible_timeout(&omx->reply_arrived, msecs_to_jiffies(5000))\<close>:
  a counter that is not zero is taken at once; a signal ends the wait; when the events of
  the five seconds are used up the wait times out. \<open>t\<close> is the time left at a
  completion.
\<close>

datatype wait_ret = Completed nat | TimedOut | Signalled

fun wait_for_completion_interruptible_timeout ::
  "rpmsg_omx_h \<Rightarrow> rpmsg_omx_instance \<Rightarrow> wait_event list \<Rightarrow> nat \<Rightarrow> wait_ret \<times> rpmsg_omx_instance" where
  "wait_for_completion_interruptible_timeout h omx [] t =
     (if reply_arrived omx \<noteq> 0 then (Completed t, omx\<lparr>reply_arrived := reply_arrived omx - 1\<rparr>)
      else (TimedOut, omx))"
| "wait_for_completion_interruptible_timeout h omx (Signal # evs) t =
     (if reply_arrived omx \<noteq> 0 then (Completed t, omx\<lparr>reply_arrived := reply_arrived omx - 1\<rparr>)
      else (Signalled, omx))"
| "wait_for_completion_interruptible_timeout h omx (Happens e # evs) t =
     (if reply_arrived omx \<noteq> 0 then (Completed t, omx\<lparr>reply_arrived := reply_arrived omx - 1\<rparr>)
      else wait_for_completion_interruptible_timeout h (omx_event h e omx) evs t)"

text \<open>The value of \<open>ret\<close> after the wait: the jiffies left (at least 1), 0 after
  a timeout, \<open>-ERESTARTSYS\<close> after a signal.\<close>

definition wait_ret_value :: "wait_ret \<Rightarrow> cret" where
  "wait_ret_value w =
     (case w of Completed t \<Rightarrow> Ret (int (max 1 t)) | TimedOut \<Rightarrow> Ret 0 | Signalled \<Rightarrow> Err ERESTARTSYS)"

definition strlen :: "u8 list \<Rightarrow> nat" where
  "strlen s = length (takeWhile (\<lambda>c. c \<noteq> 0) s)"

text \<open>
  \<open>rpmsg_omx_connect\<close>. \<open>omxname\<close> is the caller's buffer, read up to its first
  zero byte; \<open>rpdev\<close> is \<open>*omxserv->rpdev\<close>, read only when the state is not
  \<open>OMX_FAIL\<close>. A name that does not fit into \<open>connect_msg\<close> makes
  \<open>strcpy\<close> write past it.
\<close>

definition rpmsg_omx_connect ::
  "rpmsg_omx_h \<Rightarrow> kenv \<Rightarrow> rpmsg_channel \<Rightarrow> rpmsg_omx_instance \<Rightarrow> u8 list
     \<Rightarrow> cret \<times> omx_tx list \<times> rpmsg_omx_instance" where
  "rpmsg_omx_connect h k rpdev omx omxname =
     (if state omx = OMX_CONNECTED then (Err EISCONN, [], omx)
      else if sizeof_omx_conn_req h < strlen omxname + 1 then (UndefinedBehaviour, [], omx)
      else
        let msg = \<lparr>tx_src = ept omx, tx_dst = chan_dst rpdev, tx_type = OMX_CONN_REQ,
                   tx_flags = 0, tx_len = of_nat (strlen omxname + 1),
                   tx_data = takeWhile (\<lambda>c. c \<noteq> 0) omxname
                             @ replicate (sizeof_omx_conn_req h - strlen omxname) 0\<rparr>
        in if state omx = OMX_FAIL then (Err ENXIO, [], omx)
           else case rpmsg_send_err k of
             Some e \<Rightarrow> (Err e, [msg], omx)
           | None \<Rightarrow>
               (case wait_for_completion_interruptible_timeout h omx (events k) (timeleft k) of
                  (w, omx') \<Rightarrow>
                    (if state omx' = OMX_FAIL then Err ENXIO
                     else if state omx' = OMX_UNCONNECTED
                       then (if wait_ret_value w \<noteq> Ret 0 then wait_ret_value w else Err ETIMEDOUT)
                     else wait_ret_value w,
                     [msg], omx')))"

subsection \<open>ioctl\<close>

text \<open>\<open>_IOC_TYPE\<close> and \<open>_IOC_NR\<close> of asm-generic/ioctl.h.\<close>

definition IOC_TYPE :: "u32 \<Rightarrow> u32" where
  "IOC_TYPE cmd = drop_bit 8 cmd AND 0xFF"

definition IOC_NR :: "u32 \<Rightarrow> u32" where
  "IOC_NR cmd = cmd AND 0xFF"

text \<open>
  \<open>rpmsg_omx_ioctl\<close>; \<open>umem\<close> is the bytes readable at the address \<open>arg\<close>.
\<close>

definition rpmsg_omx_ioctl ::
  "rpmsg_omx_h \<Rightarrow> kenv \<Rightarrow> rpmsg_channel \<Rightarrow> rpmsg_omx_instance \<Rightarrow> u32 \<Rightarrow> u32 \<Rightarrow> u8 list
     \<Rightarrow> dma_held \<Rightarrow> cret \<times> omx_tx list \<times> rpmsg_omx_instance \<times> dma_held" where
  "rpmsg_omx_ioctl h k rpdev omx cmd arg umem R =
     (if IOC_TYPE cmd \<noteq> OMX_IOC_MAGIC h then (Err ENOTTY, [], omx, R)
      else if OMX_IOC_MAXNR h < IOC_NR cmd then (Err ENOTTY, [], omx, R)
      else if cmd = OMX_IOCCONNECT h then
        (if length umem < 48 then (Err EFAULT, [], omx, R)
         else
           let buf = (take 48 umem)[47 := 0] in
           case rpmsg_omx_connect h k rpdev omx buf of (r, tx, omx') \<Rightarrow> (r, tx, omx', R))
      else if cmd = OMX_IOCBUFREGISTER h then
        (case rpmsg_omx_pin_buffer k (sint arg) omx R of (r, omx', R') \<Rightarrow> (r, [], omx', R'))
      else if cmd = OMX_IOCBUFUNREGISTER h then
        (case rpmsg_omx_unpin_buffer k (sint arg) omx R of (r, omx', R') \<Rightarrow> (r, [], omx', R'))
      else (Ret 0, [], omx, R))"

subsection \<open>The service: open, re-attachment, removal\<close>

text \<open>
  \<open>struct rpmsg_omx_service\<close>: \<open>rpdev\<close> (\<open>None\<close> is the null pointer),
  the instances on \<open>list\<close>, and the \<open>done\<close> counter of \<open>comp\<close>.
\<close>

record rpmsg_omx_service =
  serv_rpdev :: "rpmsg_channel option"
  serv_list :: "rpmsg_omx_instance list"
  serv_comp :: u32

text \<open>The path of \<open>rpmsg_omx_probe\<close> for a service that exists already.\<close>

definition probe_existing :: "rpmsg_channel \<Rightarrow> rpmsg_omx_service \<Rightarrow> rpmsg_omx_service" where
  "probe_existing ch serv = serv\<lparr>serv_rpdev := Some ch, serv_comp := serv_comp serv + 0x7FFFFFFF\<rparr>"

text \<open>
  \<open>rpmsg_omx_remove\<close>; \<open>None\<close>: the service was freed (the remote processor had
  not crashed).
\<close>

definition rpmsg_omx_remove :: "bool \<Rightarrow> rpmsg_omx_service \<Rightarrow> rpmsg_omx_service option" where
  "rpmsg_omx_remove crashed serv =
     (if \<not> crashed then None
      else Some (serv\<lparr>serv_comp := 0, serv_list := map omx_crash (serv_list serv), serv_rpdev := None\<rparr>))"

datatype serv_event = Probed rpmsg_channel | Signalled_open

text \<open>
  The loop of lines 482 to 488: while there is no channel,
  \<open>wait_for_completion_interruptible(&omxserv->comp)\<close>. A counter that is not
  zero is taken at once (\<open>done--\<close>); a sleeper woken by the \<open>complete_all\<close>
  of a probe takes one count as well, then the loop tests \<open>rpdev\<close> again.
\<close>

function open_wait :: "rpmsg_omx_service \<Rightarrow> serv_event list \<Rightarrow> wake \<times> rpmsg_omx_service" where
  "open_wait serv evs =
     (if serv_rpdev serv \<noteq> None then (Woken, serv)
      else if serv_comp serv \<noteq> 0 then open_wait (serv\<lparr>serv_comp := serv_comp serv - 1\<rparr>) evs
      else case evs of
        [] \<Rightarrow> (Sleeping, serv)
      | Signalled_open # rest \<Rightarrow> (Interrupted, serv)
      | Probed ch # rest \<Rightarrow>
          open_wait ((probe_existing ch serv)\<lparr>serv_comp := serv_comp (probe_existing ch serv) - 1\<rparr>)
            rest)"
  by pat_completeness auto
termination
  by (relation "measures [\<lambda>(serv, evs). length evs, \<lambda>(serv, evs). unat (serv_comp serv)]")
     (auto simp: unat_minus_one unat_gt_0)

text \<open>The instance \<open>rpmsg_omx_open\<close> sets up, with the endpoint address \<open>a\<close>.\<close>

definition omx_new :: "u32 \<Rightarrow> rpmsg_omx_instance" where
  "omx_new a =
     \<lparr>queue = [], reply_arrived = 0, ept = a, ept_live = True, dst = 0,
      state = OMX_UNCONNECTED, dma_idr = []\<rparr>"

text \<open>
  \<open>rpmsg_omx_open\<close>. \<open>kzalloc_ok\<close> tells whether the allocation succeeds,
  \<open>new_ept\<close> is the address of the endpoint \<open>rpmsg_create_ept\<close> creates
  (\<open>None\<close>: it fails). The result is the return value, the service, and
  \<open>filp->private_data\<close>.
\<close>

definition rpmsg_omx_open ::
  "rpmsg_omx_service \<Rightarrow> bool \<Rightarrow> bool \<Rightarrow> u32 option \<Rightarrow> serv_event list
     \<Rightarrow> cret \<times> rpmsg_omx_service \<times> rpmsg_omx_instance option" where
  "rpmsg_omx_open serv nonblock kzalloc_ok new_ept evs =
     (if \<not> kzalloc_ok then (Err ENOMEM, serv, None)
      else if serv_rpdev serv = None \<and> nonblock then (Err EBUSY, serv, None)
      else case open_wait serv evs of
        (Interrupted, serv') \<Rightarrow> (Err ERESTARTSYS, serv', None)
      | (Sleeping, serv') \<Rightarrow> (Blocked, serv', None)
      | (Woken, serv') \<Rightarrow>
          (case new_ept of
             None \<Rightarrow> (Err ENOMEM, serv', None)
           | Some a \<Rightarrow> (Ret 0, serv'\<lparr>serv_list := omx_new a # serv_list serv'\<rparr>, Some (omx_new a))))"

subsection \<open>Sequences of calls on one instance\<close>

datatype omx_call =
    CallCb omx_rx bool
  | CallCrash
  | CallConnect kenv rpmsg_channel "u8 list"
  | CallIoctl kenv rpmsg_channel u32 u32 "u8 list"
  | CallRead bool nat bool "wait_event list"
  | CallWrite kenv "u8 list" "u8 list" nat
  | CallPoll

definition omx_step ::
  "rpmsg_omx_h \<Rightarrow> omx_call \<Rightarrow> rpmsg_omx_instance \<times> dma_held \<Rightarrow> rpmsg_omx_instance \<times> dma_held" where
  "omx_step h c s =
     (case s of (omx, R) \<Rightarrow>
        (case c of
           CallCb m skb_ok \<Rightarrow> (rpmsg_omx_cb h m skb_ok omx, R)
         | CallCrash \<Rightarrow> (omx_crash omx, R)
         | CallConnect k ch name \<Rightarrow> (snd (snd (rpmsg_omx_connect h k ch omx name)), R)
         | CallIoctl k ch cmd arg umem \<Rightarrow> snd (snd (rpmsg_omx_ioctl h k ch omx cmd arg umem R))
         | CallRead nonblock len user_ok evs \<Rightarrow>
             (snd (snd (rpmsg_omx_read h omx nonblock len user_ok evs)), R)
         | CallWrite k stack umem len \<Rightarrow> (omx, snd (snd (rpmsg_omx_write h k omx stack umem len R)))
         | CallPoll \<Rightarrow> (omx, R)))"

fun omx_run ::
  "rpmsg_omx_h \<Rightarrow> omx_call list \<Rightarrow> rpmsg_omx_instance \<times> dma_held \<Rightarrow> rpmsg_omx_instance \<times> dma_held" where
  "omx_run h [] s = s"
| "omx_run h (c # cs) s = omx_run h cs (omx_step h c s)"

subsection \<open>Notions used to state the properties\<close>

text \<open>One step of the state field: it stays, it goes from unconnected to connected, or it
  ends in failure.\<close>

definition state_move :: "omx_state \<Rightarrow> omx_state \<Rightarrow> bool" where
  "state_move s s' = (s' = s \<or> (s = OMX_UNCONNECTED \<and> s' = OMX_CONNECTED) \<or> s' = OMX_FAIL)"

text \<open>An inbound message that the callback takes as a connect response.\<close>

definition cb_conn_rsp :: "rpmsg_omx_h \<Rightarrow> omx_rx \<Rightarrow> bool" where
  "cb_conn_rsp h m =
     (\<not> cb_truncated h (rx_len m) (rx_hdr_len m) \<and> rx_type m = OMX_CONN_RSP
      \<and> \<not> rx_hdr_len m < of_nat (sizeof_omx_conn_rsp h))"

text \<open>An event of the five seconds that is neither a connect response, nor a crash, nor
  a signal.\<close>

fun quiet :: "rpmsg_omx_h \<Rightarrow> wait_event \<Rightarrow> bool" where
  "quiet h (Happens (Callback m skb_ok)) = (\<not> cb_conn_rsp h m)"
| "quiet h (Happens Crash) = False"
| "quiet h Signal = False"

text \<open>
  The values of linux/rpmsg\_omx.h in the OMAP kernels, to run the model on examples:
  a header of three 32-bit fields, a response of two, a name of 48 bytes, a packet whose
  data start at byte 20, and ioctl numbers 1 to 3 of type \<open>'X'\<close>.
\<close>

definition omap_h :: rpmsg_omx_h where
  "omap_h =
     \<lparr>sizeof_omx_msg_hdr = 12, sizeof_omx_conn_rsp = 8, sizeof_omx_conn_req = 48,
      offsetof_omx_packet_data = 20, OMX_IOC_MAGIC = 0x58, OMX_IOC_MAXNR = 3,
      OMX_IOCCONNECT = 0x40045801, OMX_IOCBUFREGISTER = 0x40045802,
      OMX_IOCBUFUNREGISTER = 0x40045803\<rparr>"

text \<open>An environment in which every outside function succeeds and nothing happens
  during a wait; no buffer is shared yet.\<close>

definition kenv_ok :: kenv where
  "kenv_ok =
     \<lparr>kmalloc_ok = True, dma_buf_get = (\<lambda>fd. Inr (nat fd)), dma_buf_attach = (\<lambda>b. Inr b),
      dma_buf_map_attachment = (\<lambda>a. Inr \<lparr>sg_dma_address = 0x80000000, sg_offset = 0\<rparr>),
      idr_pre_get_ok = True, idr_get_new_err = None, rproc_pa_to_da = (\<lambda>pa. Inr (ucast pa)),
      rpmsg_send_err = None, events = [], timeleft = 0\<rparr>"

definition held_none :: dma_held where
  "held_none = \<lparr>infos = 0, bufs = [], attached = [], mapped = []\<rparr>"

text \<open>
  Examples: a connected instance with endpoint address 5; a raw message of three payload
  bytes, received whole; the instance after that message was queued and the remote
  processor crashed; a connect response with status 0 and address 7.
\<close>

definition omx_connected :: rpmsg_omx_instance where
  "omx_connected = (omx_new 5)\<lparr>state := OMX_CONNECTED, dst := 7\<rparr>"

definition rx_raw3 :: omx_rx where
  "rx_raw3 =
     \<lparr>rx_len = 15, rx_type = OMX_RAW_MSG, rx_hdr_len = 3, rx_rsp_status = 0, rx_rsp_addr = 0,
      rx_data = (\<lambda>i. of_nat (i + 1))\<rparr>"

definition omx_crashed :: rpmsg_omx_instance where
  "omx_crashed = omx_crash (rpmsg_omx_cb omap_h rx_raw3 True omx_connected)"

definition rx_rsp_ok :: omx_rx where
  "rx_rsp_ok =
     \<lparr>rx_len = 20, rx_type = OMX_CONN_RSP, rx_hdr_len = 8, rx_rsp_status = 0, rx_rsp_addr = 7,
      rx_data = (\<lambda>i. 0)\<rparr>"

text \<open>A raw message of which only the header was received (12 bytes), whose header
  declares four payload bytes; \<open>0xAA\<close> is what lies in memory after the header.\<close>

definition rx_short :: omx_rx where
  "rx_short =
     \<lparr>rx_len = 12, rx_type = OMX_RAW_MSG, rx_hdr_len = 4, rx_rsp_status = 0, rx_rsp_addr = 0,
      rx_data = (\<lambda>i. 0xAA)\<rparr>"

definition serv_detached :: rpmsg_omx_service where
  "serv_detached = \<lparr>serv_rpdev = None, serv_list = [], serv_comp = 0\<rparr>"

text \<open>
  The completion of an unconnected instance has not been signalled: \<open>complete\<close>
  and \<open>complete_all\<close> are only called after the state has left
  \<open>OMX_UNCONNECTED\<close>.
\<close>

definition idle :: "rpmsg_omx_instance \<Rightarrow> bool" where
  "idle omx = (state omx = OMX_UNCONNECTED \<longrightarrow> reply_arrived omx = 0)"

text \<open>
  Further examples. A channel; environments in which, during the wait of connect, the
  remote side answers with \<open>rx_rsp_ok\<close>, only a raw message arrives, or the remote
  processor crashes; a name of 48 bytes without a zero byte.
\<close>

definition ch0 :: rpmsg_channel where
  "ch0 = \<lparr>chan_src = 1024, chan_dst = 60\<rparr>"

definition kenv_reply :: kenv where
  "kenv_reply = kenv_ok\<lparr>events := [Happens (Callback rx_rsp_ok True)], timeleft := 100\<rparr>"

definition kenv_quiet :: kenv where
  "kenv_quiet = kenv_ok\<lparr>events := [Happens (Callback rx_raw3 True)]\<rparr>"

definition kenv_crash :: kenv where
  "kenv_crash = kenv_ok\<lparr>events := [Happens Crash]\<rparr>"

text \<open>Environments in which a signal arrives during the wait of connect, and in which
  \<open>rpmsg_send_offchannel\<close> fails with error number 12.\<close>

definition kenv_signal :: kenv where
  "kenv_signal = kenv_ok\<lparr>events := [Signal]\<rparr>"

definition kenv_send_fails :: kenv where
  "kenv_send_fails = kenv_ok\<lparr>rpmsg_send_err := Some (EEXT 12)\<rparr>"

definition name_long :: "u8 list" where
  "name_long = replicate 48 0x61"

text \<open>
  The stack under \<open>kbuf\<close>, and two payloads of 32 bytes for write: 20 bytes of packet
  header, then the count (4 in the first, 1 in the second), the offset 8 and one handle, 9,
  which is not registered.
\<close>

definition stack0 :: "u8 list" where
  "stack0 = replicate 500 0xCC"

definition umem_count4 :: "u8 list" where
  "umem_count4 = replicate 20 0 @ [4, 0, 0, 0, 8, 0, 0, 0, 9, 0, 0, 0]"

definition umem_unpinned :: "u8 list" where
  "umem_unpinned = replicate 20 0 @ [1, 0, 0, 0, 8, 0, 0, 0, 9, 0, 0, 0]"

text \<open>A new instance after handle 4 was pinned, and what is held then.\<close>

definition omx_pinned :: rpmsg_omx_instance where
  "omx_pinned = fst (snd (rpmsg_omx_pin_buffer kenv_ok 4 (omx_new 5) held_none))"

definition held_pinned :: dma_held where
  "held_pinned = snd (snd (rpmsg_omx_pin_buffer kenv_ok 4 (omx_new 5) held_none))"

section \<open>Properties\<close>

subsection \<open>Helper lemmas: the state field\<close>

lemma wait_event_ready:
  "readq_cond omx \<Longrightarrow> wait_event_interruptible h omx evs = (Woken, omx)"
  by (cases "(h, omx, evs)" rule: wait_event_interruptible.cases) auto

lemma state_move_trans: "state_move a b \<Longrightarrow> state_move b c \<Longrightarrow> state_move a c"
  by (auto simp: state_move_def)

lemma state_move_refl: "state_move a a"
  by (simp add: state_move_def)

lemma cb_move: "state_move (state omx) (state (rpmsg_omx_cb h m ok omx))"
  by (cases "state omx")
     (auto simp: rpmsg_omx_cb_def state_move_def Let_def split: omx_msg_type.splits)

lemma crash_move: "state_move (state omx) (state (omx_crash omx))"
  by (simp add: omx_crash_def state_move_def)

lemma event_move: "state_move (state omx) (state (omx_event h e omx))"
  by (cases e) (simp_all add: omx_event_def cb_move crash_move)

lemma wait_event_move:
  "state_move (state omx) (state (snd (wait_event_interruptible h omx evs)))"
proof (induction h omx evs rule: wait_event_interruptible.induct)
  case (3 h omx e evs)
  then show ?case
    using event_move [of omx h e] by (auto intro: state_move_trans simp: state_move_refl)
qed (simp_all add: state_move_refl)

lemma wait_completion_move:
  "state_move (state omx) (state (snd (wait_for_completion_interruptible_timeout h omx evs t)))"
proof (induction h omx evs t rule: wait_for_completion_interruptible_timeout.induct)
  case (3 h omx e evs t)
  then show ?case
    using event_move [of omx h e] by (auto intro: state_move_trans simp: state_move_refl)
qed (simp_all add: state_move_refl)

lemma read_locked_state: "state (snd (snd (read_locked omx len user_ok))) = state omx"
  by (simp add: read_locked_def Let_def split: list.splits)

lemma read_move:
  "state_move (state omx) (state (snd (snd (rpmsg_omx_read h omx nonblock len user_ok evs))))"
proof -
  obtain w omx' where w: "wait_event_interruptible h omx evs = (w, omx')"
    by (cases "wait_event_interruptible h omx evs")
  have "state_move (state omx) (state omx')"
    using wait_event_move [of omx h evs] w by simp
  then show ?thesis
    by (cases w) (simp_all add: rpmsg_omx_read_def w read_locked_state state_move_refl)
qed

lemma connect_move:
  "state_move (state omx) (state (snd (snd (rpmsg_omx_connect h k ch omx name))))"
proof -
  obtain w omx' where
    w: "wait_for_completion_interruptible_timeout h omx (events k) (timeleft k) = (w, omx')"
    by (cases "wait_for_completion_interruptible_timeout h omx (events k) (timeleft k)")
  have "state_move (state omx) (state omx')"
    using wait_completion_move [of omx h "events k" "timeleft k"] w by simp
  then show ?thesis
    by (simp add: rpmsg_omx_connect_def w Let_def state_move_refl split: option.splits)
qed

lemma pin_state: "state (fst (snd (rpmsg_omx_pin_buffer k fd omx R))) = state omx"
  by (simp add: rpmsg_omx_pin_buffer_def Let_def split: sum.splits option.splits)

lemma unpin_state: "state (fst (snd (rpmsg_omx_unpin_buffer k fd omx R))) = state omx"
  by (simp add: rpmsg_omx_unpin_buffer_def Let_def split: prod.splits option.splits)

lemma ioctl_move:
  "state_move (state omx) (state (fst (snd (snd (rpmsg_omx_ioctl h k ch omx cmd arg umem R)))))"
  using connect_move [of omx h k ch "(take 48 umem)[47 := 0]"]
        pin_state [of k "sint arg" omx R] unpin_state [of k "sint arg" omx R]
  by (auto simp: rpmsg_omx_ioctl_def Let_def state_move_refl split: prod.splits)

lemma step_move: "state_move (state (fst s)) (state (fst (omx_step h c s)))"
  by (cases s; cases c)
     (simp_all add: omx_step_def cb_move crash_move connect_move ioctl_move read_move
        state_move_refl)

lemma run_move: "state_move (state (fst s)) (state (fst (omx_run h cs s)))"
proof (induction cs arbitrary: s)
  case Nil
  show ?case by (simp add: state_move_refl)
next
  case (Cons c cs)
  show ?case
    using step_move [of s h c] Cons.IH [of "omx_step h c s"]
    by (auto intro: state_move_trans)
qed

lemma run_append: "omx_run h (cs1 @ cs2) s = omx_run h cs2 (omx_run h cs1 s)"
  by (induction cs1 arbitrary: s) simp_all

subsection \<open>Helper lemmas: the completion of an unconnected instance\<close>

lemma cb_idle: "idle omx \<Longrightarrow> idle (rpmsg_omx_cb h m ok omx)"
  by (auto simp: idle_def rpmsg_omx_cb_def Let_def split: omx_msg_type.splits if_splits)

lemma event_idle: "idle omx \<Longrightarrow> idle (omx_event h e omx)"
  by (cases e) (simp_all add: omx_event_def cb_idle, simp add: idle_def omx_crash_def)

lemma wait_event_idle: "idle omx \<Longrightarrow> idle (snd (wait_event_interruptible h omx evs))"
  by (induction h omx evs rule: wait_event_interruptible.induct) (simp_all add: event_idle)

lemma wait_completion_idle:
  "idle omx \<Longrightarrow> idle (snd (wait_for_completion_interruptible_timeout h omx evs t))"
  by (induction h omx evs t rule: wait_for_completion_interruptible_timeout.induct)
     (auto simp: event_idle, simp_all add: idle_def)

lemma read_locked_idle: "idle omx \<Longrightarrow> idle (snd (snd (read_locked omx len user_ok)))"
  by (simp add: read_locked_def idle_def Let_def split: list.splits)

lemma read_idle:
  "idle omx \<Longrightarrow> idle (snd (snd (rpmsg_omx_read h omx nonblock len user_ok evs)))"
proof -
  assume i: "idle omx"
  obtain w omx' where w: "wait_event_interruptible h omx evs = (w, omx')"
    by (cases "wait_event_interruptible h omx evs")
  have "idle omx'" using wait_event_idle [OF i, of h evs] w by simp
  then show ?thesis
    using i by (cases w) (simp_all add: rpmsg_omx_read_def w read_locked_idle)
qed

lemma connect_idle:
  "idle omx \<Longrightarrow> idle (snd (snd (rpmsg_omx_connect h k ch omx name)))"
proof -
  assume i: "idle omx"
  obtain w omx' where
    w: "wait_for_completion_interruptible_timeout h omx (events k) (timeleft k) = (w, omx')"
    by (cases "wait_for_completion_interruptible_timeout h omx (events k) (timeleft k)")
  have "idle omx'" using wait_completion_idle [OF i, of h "events k" "timeleft k"] w by simp
  then show ?thesis
    using i by (simp add: rpmsg_omx_connect_def w Let_def split: option.splits)
qed

lemma pin_idle: "idle omx \<Longrightarrow> idle (fst (snd (rpmsg_omx_pin_buffer k fd omx R)))"
  by (simp add: rpmsg_omx_pin_buffer_def idle_def Let_def split: sum.splits option.splits)

lemma unpin_idle: "idle omx \<Longrightarrow> idle (fst (snd (rpmsg_omx_unpin_buffer k fd omx R)))"
  by (simp add: rpmsg_omx_unpin_buffer_def idle_def Let_def split: prod.splits option.splits)

lemma ioctl_idle:
  "idle omx \<Longrightarrow> idle (fst (snd (snd (rpmsg_omx_ioctl h k ch omx cmd arg umem R))))"
  using connect_idle [of omx h k ch "(take 48 umem)[47 := 0]"]
        pin_idle [of omx k "sint arg" R] unpin_idle [of omx k "sint arg" R]
  by (auto simp: rpmsg_omx_ioctl_def Let_def split: prod.splits)

lemma step_idle: "idle (fst s) \<Longrightarrow> idle (fst (omx_step h c s))"
  by (cases s; cases c)
     (simp_all add: omx_step_def cb_idle event_idle connect_idle ioctl_idle read_idle,
      simp add: idle_def omx_crash_def)

lemma run_idle: "idle (fst s) \<Longrightarrow> idle (fst (omx_run h cs s))"
  by (induction cs arbitrary: s) (simp_all add: step_idle)

lemma new_idle: "idle (omx_new a)"
  by (simp add: idle_def omx_new_def)

subsection \<open>Helper lemmas: the wait of connect\<close>

lemma quiet_event:
  "quiet h (Happens e) \<Longrightarrow> omx_event h e omx = omx \<or>
     (\<exists>skb. omx_event h e omx = omx\<lparr>queue := queue omx @ [skb]\<rparr>)"
  by (cases e)
     (auto simp: omx_event_def rpmsg_omx_cb_def cb_conn_rsp_def Let_def
        split: omx_msg_type.splits)

lemma quiet_event_fields:
  "quiet h (Happens e) \<Longrightarrow>
     state (omx_event h e omx) = state omx
     \<and> reply_arrived (omx_event h e omx) = reply_arrived omx"
  using quiet_event [of h e omx] by auto

lemma quiet_wait_times_out:
  "list_all (quiet h) evs \<Longrightarrow> reply_arrived omx = 0 \<Longrightarrow>
     fst (wait_for_completion_interruptible_timeout h omx evs t) = TimedOut
     \<and> state (snd (wait_for_completion_interruptible_timeout h omx evs t)) = state omx"
proof (induction h omx evs t rule: wait_for_completion_interruptible_timeout.induct)
  case (3 h omx e evs t)
  then show ?case using quiet_event_fields [of h e omx] by simp
qed simp_all

lemma connect_quiet:
  assumes "state omx = OMX_UNCONNECTED" "reply_arrived omx = 0" "rpmsg_send_err k = None"
      and "strlen omxname + 1 \<le> sizeof_omx_conn_req h" "list_all (quiet h) (events k)"
  shows "fst (rpmsg_omx_connect h k rpdev omx omxname) = Err ETIMEDOUT
         \<and> state (snd (snd (rpmsg_omx_connect h k rpdev omx omxname))) = OMX_UNCONNECTED"
proof -
  obtain w omx' where
    w: "wait_for_completion_interruptible_timeout h omx (events k) (timeleft k) = (w, omx')"
    by (cases "wait_for_completion_interruptible_timeout h omx (events k) (timeleft k)")
  have "w = TimedOut \<and> state omx' = state omx"
    using quiet_wait_times_out [OF assms(5,2), of "timeleft k"] w by simp
  then show ?thesis
    using assms(1,3,4) w by (simp add: rpmsg_omx_connect_def Let_def wait_ret_value_def)
qed

lemma connect_failed:
  assumes "state omx \<noteq> OMX_CONNECTED" "rpmsg_send_err k = None"
      and "strlen omxname + 1 \<le> sizeof_omx_conn_req h"
      and "state (snd (snd (rpmsg_omx_connect h k rpdev omx omxname))) = OMX_FAIL"
  shows "fst (rpmsg_omx_connect h k rpdev omx omxname) = Err ENXIO"
  using assms
  by (auto simp: rpmsg_omx_connect_def Let_def split: if_splits prod.splits)

subsection \<open>Helper lemmas: the name buffer of the connect ioctl\<close>

lemma buf_too_long:
  assumes "48 \<le> length umem"
  shows "(take 48 umem)[47 := 0] = take 47 umem @ [0]"
proof -
  have "take 48 umem = take 47 umem @ [umem ! 47]"
    using assms by (simp add: take_Suc_conv_app_nth [of 47 umem, simplified])
  then show ?thesis using assms by (simp add: list_update_append)
qed

lemma strlen_too_long:
  assumes "48 \<le> length umem" "0 \<notin> set (take 48 umem)"
  shows "strlen (take 47 umem @ [0]) = 47"
    and "takeWhile (\<lambda>c. c \<noteq> 0) (take 47 umem @ [0]) = take 47 umem"
proof -
  have "set (take 47 umem) \<subseteq> set (take 48 umem)" by (rule set_take_subset_set_take) simp
  then have nz: "\<forall>c\<in>set (take 47 umem). c \<noteq> 0" using assms(2) by blast
  then show "takeWhile (\<lambda>c. c \<noteq> 0) (take 47 umem @ [0]) = take 47 umem"
    by (simp add: takeWhile_append2)
  then show "strlen (take 47 umem @ [0]) = 47" using assms(1) by (simp add: strlen_def)
qed

subsection \<open>Helper lemmas: the idr and the unwinding of a failed pin\<close>

lemma fold_max_ge: "(s::int) \<le> fold max ks s"
proof (induction ks arbitrary: s)
  case Nil
  show ?case by simp
next
  case (Cons k ks)
  have "s \<le> max k s" by simp
  also have "\<dots> \<le> fold max ks (max k s)" by (rule Cons.IH)
  finally show ?case by simp
qed

lemma fold_max_upper: "k \<in> set ks \<Longrightarrow> (k::int) \<le> fold max ks s"
proof (induction ks arbitrary: s)
  case Nil
  then show ?case by simp
next
  case (Cons a ks)
  show ?case
  proof (cases "k = a")
    case True
    have "k \<le> max a s" using True by simp
    also have "\<dots> \<le> fold max ks (max a s)" by (rule fold_max_ge)
    finally show ?thesis by simp
  next
    case False
    then have "k \<in> set ks" using Cons.prems by simp
    then show ?thesis using Cons.IH by simp
  qed
qed

lemma idr_new_id_fresh: "idr_new_id_above idr start \<notin> fst ` set idr"
proof (cases "find (\<lambda>i. i \<notin> set (map fst idr)) [start..fold max (map fst idr) start]")
  case None
  have "fold max (map fst idr) start + 1 \<notin> set (map fst idr)"
  proof
    assume "fold max (map fst idr) start + 1 \<in> set (map fst idr)"
    then have "fold max (map fst idr) start + 1 \<le> fold max (map fst idr) start"
      by (rule fold_max_upper)
    then show False by simp
  qed
  with None show ?thesis by (simp add: idr_new_id_above_def)
next
  case (Some i)
  then have "i \<notin> set (map fst idr)" by (auto simp: find_Some_iff)
  with Some show ?thesis by (simp add: idr_new_id_above_def)
qed

lemma idr_new_id_is_start:
  "(idr_new_id_above idr start = start) = (start \<notin> fst ` set idr)"
proof
  assume "idr_new_id_above idr start = start"
  then show "start \<notin> fst ` set idr" using idr_new_id_fresh [of idr start] by simp
next
  assume free: "start \<notin> fst ` set idr"
  have "start \<le> fold max (map fst idr) start" by (rule fold_max_ge)
  then have "[start..fold max (map fst idr) start]
               = start # [start + 1..fold max (map fst idr) start]"
    by (simp add: upto_rec1)
  then show "idr_new_id_above idr start = start"
    using free by (simp add: idr_new_id_above_def)
qed

lemma idr_remove_new: "key \<notin> fst ` set idr \<Longrightarrow> idr_remove ((key, v) # idr) key = idr"
  by (auto simp: idr_remove_def filter_id_conv)

lemma pin_unwinds:
  "rpmsg_omx_pin_buffer k fd omx R = (Err e, omx', R') \<Longrightarrow> omx' = omx \<and> R' = R"
  using idr_new_id_fresh [of "dma_idr omx" fd]
  by (auto simp: rpmsg_omx_pin_buffer_def Let_def pin_err_def pin_err_buf_put_def
        pin_err_detach_def pin_err_unmap_def idr_remove_new
      split: if_splits sum.splits option.splits)

lemma pin_result:
  "(\<exists>e. rpmsg_omx_pin_buffer k fd omx R = (Err e, omx, R))
   \<or> (fd \<notin> fst ` set (dma_idr omx)
       \<and> (\<exists>omx' R'. rpmsg_omx_pin_buffer k fd omx R = (Ret 0, omx', R')))"
proof (cases "rpmsg_omx_pin_buffer k fd omx R")
  case (fields r omx' R')
  have "r = Ret 0 \<or> (\<exists>e. r = Err e)"
    using fields
    by (auto simp: rpmsg_omx_pin_buffer_def Let_def split: if_splits sum.splits option.splits)
  then show ?thesis
  proof
    assume "r = Ret 0"
    then have "fd \<notin> fst ` set (dma_idr omx)"
      using fields idr_new_id_is_start [of "dma_idr omx" fd]
      by (auto simp: rpmsg_omx_pin_buffer_def Let_def split: if_splits sum.splits option.splits)
    then show ?thesis using fields \<open>r = Ret 0\<close> by simp
  next
    assume "\<exists>e. r = Err e"
    then obtain e where "r = Err e" ..
    then show ?thesis using fields pin_unwinds [of k fd omx R e omx' R'] by auto
  qed
qed

subsection \<open>Helper lemmas: rewriting the handles of a payload\<close>

lemma buffer_get_value:
  "fst (rpmsg_omx_buffer_get k omx b R) = fst (rpmsg_omx_buffer_get k omx b R')"
  by (simp add: rpmsg_omx_buffer_get_def rpmsg_omx_dma_find_def Let_def split: option.splits)

lemma length_store32:
  "0 \<le> i \<Longrightarrow> nat i + 4 \<le> length mem \<Longrightarrow> length (store32 mem i v) = length mem"
  by (simp add: store32_def)

lemma nth_store32_above:
  "0 \<le> i \<Longrightarrow> nat i + 4 \<le> p \<Longrightarrow> p < length mem \<Longrightarrow> store32 mem i v ! p = mem ! p"
  by (simp add: store32_def nth_append)

lemma load32_store32_above:
  assumes "load32 mem i = Some b" and "i + 4 \<le> i'"
  shows "load32 (store32 mem i v) i' = load32 mem i'"
proof -
  from assms(1) have i: "0 \<le> i" "nat i + 4 \<le> length mem"
    by (auto simp: load32_def split: if_splits)
  have len: "length (store32 mem i v) = length mem"
    using i by (rule length_store32)
  have pos: "0 \<le> i'" "nat i + 4 \<le> nat i'" using i(1) assms(2) by auto
  show ?thesis
  proof (cases "nat i' + 4 \<le> length mem")
    case True
    have "store32 mem i v ! p = mem ! p" if "nat i' \<le> p" "p < nat i' + 4" for p
      using that pos True i(1) by (intro nth_store32_above) auto
    then show ?thesis
      using True pos len by (simp add: load32_def)
  next
    case False
    then show ?thesis using len by (simp add: load32_def)
  qed
qed

lemma map_buf_loop_first_failure:
  assumes "j < n"
      and "\<forall>t<j. \<exists>b da. load32 mem (i + 4 * int t) = Some b
                 \<and> fst (rpmsg_omx_buffer_get k omx b R0) = Inr da"
      and "load32 mem (i + 4 * int j) = Some bj"
      and "fst (rpmsg_omx_buffer_get k omx bj R0) = Inl e"
  shows "fst (map_buf_loop k omx n i mem R) = Some (Inl e)"
  using assms
proof (induction n arbitrary: i mem R j)
  case 0
  then show ?case by simp
next
  case (Suc n)
  show ?case
  proof (cases j)
    case 0
    obtain r R' where g: "rpmsg_omx_buffer_get k omx bj R = (r, R')"
      by (cases "rpmsg_omx_buffer_get k omx bj R")
    have "r = Inl e"
      using g Suc.prems(4) buffer_get_value [of k omx bj R R0] by simp
    then show ?thesis using 0 Suc.prems(3) g by simp
  next
    case (Suc j')
    from Suc.prems(2) Suc obtain b da where
      b: "load32 mem i = Some b" "fst (rpmsg_omx_buffer_get k omx b R0) = Inr da"
      by force
    obtain r R' where g: "rpmsg_omx_buffer_get k omx b R = (r, R')"
      by (cases "rpmsg_omx_buffer_get k omx b R")
    have r: "r = Inr da"
      using g b(2) buffer_get_value [of k omx b R R0] by simp
    have shift:
      "load32 (store32 mem i da) (i + 4 + 4 * int t) = load32 mem (i + 4 * int (Suc t))" for t
      using load32_store32_above [OF b(1), of "i + 4 + 4 * int t" da] by (simp add: algebra_simps)
    have "fst (map_buf_loop k omx n (i + 4) (store32 mem i da) R') = Some (Inl e)"
    proof (rule Suc.IH [of j'])
      show "j' < n" using Suc.prems(1) Suc by simp
      show "\<forall>t<j'. \<exists>b da'. load32 (store32 mem i da) (i + 4 + 4 * int t) = Some b
                 \<and> fst (rpmsg_omx_buffer_get k omx b R0) = Inr da'"
        using Suc.prems(2) Suc shift by auto
      show "load32 (store32 mem i da) (i + 4 + 4 * int j') = Some bj"
        using Suc.prems(3) Suc shift by simp
      show "fst (rpmsg_omx_buffer_get k omx bj R0) = Inl e" by (rule Suc.prems(4))
    qed
    then show ?thesis using b(1) g r by simp
  qed
qed

lemma write_bad_count:
  assumes "state omx \<noteq> OMX_UNCONNECTED"
      and "write_use h len \<le> length umem"
      and "load32 (write_kbuf h stack umem len) (int (offsetof_omx_packet_data h)) = Some maptype"
      and "load32 (write_kbuf h stack umem len) (int (offsetof_omx_packet_data h) + 4)
             = Some offset"
      and "3 < maptype"
  shows "rpmsg_omx_write h k omx stack umem len R = (Err EINVAL, [], R)"
  using assms by (simp add: rpmsg_omx_write_def rpmsg_omx_map_buf_def Let_def)

lemma write_failed_translation:
  assumes "state omx \<noteq> OMX_UNCONNECTED"
      and "write_use h len \<le> length umem"
      and mt: "load32 (write_kbuf h stack umem len) (int (offsetof_omx_packet_data h))
                 = Some maptype"
      and off: "load32 (write_kbuf h stack umem len) (int (offsetof_omx_packet_data h) + 4)
                 = Some offset"
      and "maptype \<le> 3" and "j < unat maptype"
      and ok: "\<forall>t<j. \<exists>b da.
                    load32 (write_kbuf h stack umem len)
                      (int (offsetof_omx_packet_data h) + sint offset + 4 * int t) = Some b
                    \<and> fst (rpmsg_omx_buffer_get k omx b R) = Inr da"
      and bj: "load32 (write_kbuf h stack umem len)
                      (int (offsetof_omx_packet_data h) + sint offset + 4 * int j) = Some bj"
              "fst (rpmsg_omx_buffer_get k omx bj R) = Inl e"
  shows "fst (rpmsg_omx_write h k omx stack umem len R) = Err e
         \<and> fst (snd (rpmsg_omx_write h k omx stack umem len R)) = []"
proof -
  let ?mem = "write_kbuf h stack umem len"
  let ?base = "int (offsetof_omx_packet_data h) + sint offset"
  have loop: "fst (map_buf_loop k omx (unat maptype) ?base ?mem R) = Some (Inl e)"
    using \<open>j < unat maptype\<close> ok bj by (rule map_buf_loop_first_failure)
  have m: "\<not> 3 < maptype" using \<open>maptype \<le> 3\<close> by (simp add: not_less)
  have "fst (rpmsg_omx_map_buf h k omx ?mem R) = Some (Inl e)"
    using mt off m loop by (simp add: rpmsg_omx_map_buf_def Let_def)
  then obtain R' where "rpmsg_omx_map_buf h k omx ?mem R = (Some (Inl e), R')"
    by (cases "rpmsg_omx_map_buf h k omx ?mem R") simp
  then show ?thesis
    using assms(1,2) by (simp add: rpmsg_omx_write_def Let_def)
qed

lemma write_any_failed_translation:
  assumes st: "state omx \<noteq> OMX_UNCONNECTED"
      and us: "write_use h len \<le> length umem"
      and mt: "load32 (write_kbuf h stack umem len) (int (offsetof_omx_packet_data h))
                 = Some maptype"
      and off: "load32 (write_kbuf h stack umem len) (int (offsetof_omx_packet_data h) + 4)
                 = Some offset"
      and le3: "maptype \<le> 3" and j: "j < unat maptype"
      and inb: "\<forall>t\<le>j. \<exists>b. load32 (write_kbuf h stack umem len)
                      (int (offsetof_omx_packet_data h) + sint offset + 4 * int t) = Some b"
      and bj: "load32 (write_kbuf h stack umem len)
                      (int (offsetof_omx_packet_data h) + sint offset + 4 * int j) = Some bj"
              "fst (rpmsg_omx_buffer_get k omx bj R) = Inl e"
  shows "\<exists>j0 b0 e0. j0 \<le> j
           \<and> load32 (write_kbuf h stack umem len)
                 (int (offsetof_omx_packet_data h) + sint offset + 4 * int j0) = Some b0
           \<and> fst (rpmsg_omx_buffer_get k omx b0 R) = Inl e0
           \<and> fst (rpmsg_omx_write h k omx stack umem len R) = Err e0
           \<and> fst (snd (rpmsg_omx_write h k omx stack umem len R)) = []"
proof -
  let ?h = "\<lambda>t. load32 (write_kbuf h stack umem len)
                      (int (offsetof_omx_packet_data h) + sint offset + 4 * int t)"
  define P where "P t \<longleftrightarrow> (\<exists>b e. ?h t = Some b \<and> fst (rpmsg_omx_buffer_get k omx b R) = Inl e)"
    for t
  have "P j" using bj by (auto simp: P_def)
  define j0 where "j0 = (LEAST t. P t)"
  have P0: "P j0" unfolding j0_def using \<open>P j\<close> by (rule LeastI)
  have le: "j0 \<le> j" unfolding j0_def using \<open>P j\<close> by (rule Least_le)
  have before: "\<not> P t" if "t < j0" for t
    using that unfolding j0_def by (rule not_less_Least)
  from P0 obtain b0 e0 where
    b0: "?h j0 = Some b0" "fst (rpmsg_omx_buffer_get k omx b0 R) = Inl e0"
    by (auto simp: P_def)
  have ok: "\<forall>t<j0. \<exists>b da. ?h t = Some b \<and> fst (rpmsg_omx_buffer_get k omx b R) = Inr da"
  proof (intro allI impI)
    fix t assume t: "t < j0"
    then obtain b where b: "?h t = Some b" using inb le by force
    have "\<not> P t" using t by (rule before)
    then have "\<forall>e. fst (rpmsg_omx_buffer_get k omx b R) \<noteq> Inl e"
      using b by (auto simp: P_def)
    then obtain da where "fst (rpmsg_omx_buffer_get k omx b R) = Inr da"
      by (cases "fst (rpmsg_omx_buffer_get k omx b R)") auto
    then show "\<exists>b da. ?h t = Some b \<and> fst (rpmsg_omx_buffer_get k omx b R) = Inr da"
      using b by blast
  qed
  have "j0 < unat maptype" using le j by simp
  then have "fst (rpmsg_omx_write h k omx stack umem len R) = Err e0
         \<and> fst (snd (rpmsg_omx_write h k omx stack umem len R)) = []"
    using ok b0 by (intro write_failed_translation [OF st us mt off le3]) 
  then show ?thesis using le b0 by blast
qed

subsection \<open>Helper lemmas: the examples\<close>

lemma omx_crashed_eq:
  "omx_crashed =
     \<lparr>queue = [[1, 2, 3]], reply_arrived = 0x7FFFFFFF, ept = 5, ept_live = False,
      dst = 7, state = OMX_FAIL, dma_idr = []\<rparr>"
  by code_simp

lemma kbuf_count4:
  "write_kbuf omap_h stack0 umem_count4 32 = umem_count4 @ replicate 468 0xCC"
  by (simp add: write_kbuf_def write_use_def omap_h_def stack0_def umem_count4_def)

lemma kbuf_unpinned:
  "write_kbuf omap_h stack0 umem_unpinned 32 = umem_unpinned @ replicate 468 0xCC"
  by (simp add: write_kbuf_def write_use_def omap_h_def stack0_def umem_unpinned_def)

lemma omap_data_off: "offsetof_omx_packet_data omap_h = 20"
  by (simp add: omap_h_def)

subsection \<open>Reading from a failed connection\<close>

text \<open>
  C1 (as stated, refuted): a read on a failed connection whose queue is not empty would
  return the oldest queued payload, and a frame queued before a crash would still be
  delivered afterwards. Here a three-byte frame is queued, then the remote processor
  crashes, then a blocking read is issued: it returns \<open>-ENXIO\<close>, delivers nothing
  and leaves the frame in the queue.
\<close>

theorem read_after_crash_counterexample:
  "state omx_crashed = OMX_FAIL \<and> queue omx_crashed = [[1, 2, 3]]
   \<and> rpmsg_omx_read omap_h omx_crashed False 16 True [] = (Err ENXIO, [], omx_crashed)
   \<and> fst (rpmsg_omx_read omap_h omx_crashed False 16 True []) \<noteq> Ret 3
   \<and> fst (snd (rpmsg_omx_read omap_h omx_crashed False 16 True [])) \<noteq> [1, 2, 3]"
  by (simp add: omx_crashed_eq rpmsg_omx_read_def read_locked_def)

text \<open>
  C1 (amended): on a failed connection the test of line 609 comes before the dequeue, so
  a read returns \<open>-ENXIO\<close> whether or not frames are queued, delivers nothing and
  leaves the instance, its queue included, as it was. This holds for every read with a
  non-empty queue and for every blocking read; a non-blocking read on an empty queue
  returns \<open>-EAGAIN\<close>.
\<close>

theorem read_failed_returns_enxio:
  "state omx = OMX_FAIL \<Longrightarrow>
     (queue omx \<noteq> [] \<or> \<not> nonblock \<longrightarrow>
        rpmsg_omx_read h omx nonblock len user_ok evs = (Err ENXIO, [], omx))
     \<and> (queue omx = [] \<and> nonblock \<longrightarrow>
        rpmsg_omx_read h omx nonblock len user_ok evs = (Err EAGAIN, [], omx))"
  by (auto simp: rpmsg_omx_read_def read_locked_def readq_cond_def wait_event_ready)

theorem read_failed_returns_enxio_witness:
  "state omx_crashed = OMX_FAIL \<and> queue omx_crashed \<noteq> []
   \<and> rpmsg_omx_read omap_h omx_crashed True 16 True [] = (Err ENXIO, [], omx_crashed)"
  using read_failed_returns_enxio [of omx_crashed True omap_h 16 True "[]"]
  by (simp add: omx_crashed_eq)

subsection \<open>The state field\<close>

text \<open>
  C2: along every sequence of calls on an instance (callbacks with any message, crash
  notifications, connect, ioctl, read, write, poll), from any point of the sequence to any
  later point the state has stayed the same, has gone from unconnected to connected, or
  has become failed; and once it is failed it is failed at every later point, whatever
  arrives afterwards.
\<close>

theorem state_moves_forward_and_fail_is_terminal:
  "state_move (state (fst (omx_run h cs1 (omx, R))))
              (state (fst (omx_run h (cs1 @ cs2) (omx, R))))
   \<and> (state (fst (omx_run h cs1 (omx, R))) = OMX_FAIL
        \<longrightarrow> state (fst (omx_run h (cs1 @ cs2) (omx, R))) = OMX_FAIL)"
  using run_move [of "omx_run h cs1 (omx, R)" h cs2]
  by (auto simp: run_append state_move_def)

text \<open>A crash, then a connect response with status 0: the state stays failed.\<close>

theorem state_moves_forward_and_fail_is_terminal_witness:
  "state (fst (omx_run omap_h [CallCrash] (omx_new 5, held_none))) = OMX_FAIL
   \<and> state (fst (omx_run omap_h ([CallCrash] @ [CallCb rx_rsp_ok True])
                   (omx_new 5, held_none))) = OMX_FAIL"
  using state_moves_forward_and_fail_is_terminal
          [of omap_h "[CallCrash]" "omx_new 5" held_none "[CallCb rx_rsp_ok True]"]
  by (simp add: omx_step_def omx_crash_def omx_new_def)

subsection \<open>The length check of the callback\<close>

text \<open>
  C3 (the code departs from it): the guard of line 304 is meant to drop truncated
  messages, but it compares the wrong way round and drops a message only when the header
  declares less than was received. A raw message of which the 12 header bytes alone were
  received and whose header declares 4 payload bytes passes the guard; the callback queues
  4 bytes read from behind the received data.
\<close>

theorem cb_copies_past_received_data:
  "\<not> cb_truncated omap_h (rx_len rx_short) (rx_hdr_len rx_short)
   \<and> rx_len rx_short - int (sizeof_omx_msg_hdr omap_h) = 0
   \<and> unat (rx_hdr_len rx_short) = 4
   \<and> queue (rpmsg_omx_cb omap_h rx_short True omx_connected) = [[0xAA, 0xAA, 0xAA, 0xAA]]"
  by code_simp

subsection \<open>Opening without a channel\<close>

text \<open>
  C4 (as stated, refuted): a non-blocking open on a service without channel would fail
  with the would-block error \<open>EAGAIN\<close>. The code returns \<open>-EBUSY\<close>.
\<close>

theorem open_nonblock_counterexample:
  "rpmsg_omx_open serv_detached True True (Some 5) [] = (Err EBUSY, serv_detached, None)
   \<and> fst (rpmsg_omx_open serv_detached True True (Some 5) []) \<noteq> Err EAGAIN"
  by (simp add: rpmsg_omx_open_def serv_detached_def)

text \<open>
  C4 (amended): a non-blocking open on a service without channel fails at once, without
  waiting and without touching the service: with \<open>-EBUSY\<close>, or with \<open>-ENOMEM\<close>
  when the instance cannot be allocated.
\<close>

theorem open_nonblock_without_channel_is_busy:
  "serv_rpdev serv = None \<Longrightarrow>
     rpmsg_omx_open serv True kzalloc_ok new_ept evs
       = (Err (if kzalloc_ok then EBUSY else ENOMEM), serv, None)"
  by (simp add: rpmsg_omx_open_def)

theorem open_nonblock_without_channel_is_busy_witness:
  "serv_rpdev serv_detached = None
   \<and> rpmsg_omx_open serv_detached True True (Some 5) [Probed \<lparr>chan_src = 1, chan_dst = 2\<rparr>]
       = (Err EBUSY, serv_detached, None)"
  using open_nonblock_without_channel_is_busy
          [of serv_detached True "Some 5" "[Probed \<lparr>chan_src = 1, chan_dst = 2\<rparr>]"]
  by (simp add: serv_detached_def)

subsection \<open>Connecting twice\<close>

text \<open>
  C6: a connect on an instance whose state is connected returns \<open>-EISCONN\<close> at once;
  nothing is handed to \<open>rpmsg_send_offchannel\<close> and the instance (state, destination
  address, queue and all other fields) is unchanged.
\<close>

theorem connect_when_connected_is_eisconn:
  "state omx = OMX_CONNECTED \<Longrightarrow>
     rpmsg_omx_connect h k rpdev omx omxname = (Err EISCONN, [], omx)"
  by (simp add: rpmsg_omx_connect_def)

theorem connect_when_connected_is_eisconn_witness:
  "state omx_connected = OMX_CONNECTED
   \<and> rpmsg_omx_connect omap_h kenv_ok \<lparr>chan_src = 1, chan_dst = 2\<rparr> omx_connected [0x61, 0]
       = (Err EISCONN, [], omx_connected)"
  using connect_when_connected_is_eisconn
          [of omx_connected omap_h kenv_ok "\<lparr>chan_src = 1, chan_dst = 2\<rparr>" "[0x61, 0]"]
  by (simp add: omx_connected_def omx_new_def)

subsection \<open>The name of the connect ioctl\<close>

text \<open>
  C5 (as stated, refuted): a connect whose name is too long for the 48-byte field would
  be rejected with an error. Here the client passes 48 bytes \<open>a\<close> without a zero
  byte and the remote side answers: the ioctl sends a request with the first 47 bytes as
  the name, the connection becomes connected and the call returns the jiffies left.
\<close>

theorem ioctl_connect_long_name_counterexample:
  "length name_long = 48 \<and> 0 \<notin> set name_long
   \<and> rpmsg_omx_ioctl omap_h kenv_reply ch0 (omx_new 5) (OMX_IOCCONNECT omap_h) 0 name_long held_none
       = (Ret 100,
          [\<lparr>tx_src = 5, tx_dst = 60, tx_type = OMX_CONN_REQ, tx_flags = 0, tx_len = 48,
            tx_data = replicate 47 0x61 @ [0]\<rparr>],
          (omx_new 5)\<lparr>dst := 7, state := OMX_CONNECTED\<rparr>, held_none)"
  by code_simp

text \<open>
  C5 (amended): the connect ioctl copies 48 bytes from the client and overwrites the last
  one with a zero byte; a name of 48 or more bytes is therefore cut to its first 47 bytes
  without an error, and the call goes on exactly as a connect with that 47-byte name: on
  an unconnected instance the request handed to the bus carries the length 48 and the
  47 bytes followed by the terminator.
\<close>

theorem ioctl_connect_truncates_name:
  assumes "IOC_TYPE (OMX_IOCCONNECT h) = OMX_IOC_MAGIC h"
      and "IOC_NR (OMX_IOCCONNECT h) \<le> OMX_IOC_MAXNR h"
      and "48 \<le> length umem"
      and "0 \<notin> set (take 48 umem)"
  shows "rpmsg_omx_ioctl h k rpdev omx (OMX_IOCCONNECT h) arg umem R
           = (case rpmsg_omx_connect h k rpdev omx (take 47 umem @ [0]) of
                (r, tx, omx') \<Rightarrow> (r, tx, omx', R))
         \<and> strlen (take 47 umem @ [0]) = 47
         \<and> (state omx = OMX_UNCONNECTED \<and> rpmsg_send_err k = None
              \<and> 48 \<le> sizeof_omx_conn_req h
              \<longrightarrow> (\<exists>msg. fst (snd (rpmsg_omx_ioctl h k rpdev omx (OMX_IOCCONNECT h) arg umem R))
                            = [msg]
                     \<and> tx_type msg = OMX_CONN_REQ \<and> tx_len msg = 48
                     \<and> take 48 (tx_data msg) = take 47 umem @ [0]))"
proof -
  have buf: "(take 48 umem)[47 := 0] = take 47 umem @ [0]"
    using assms(3) by (rule buf_too_long)
  have io: "rpmsg_omx_ioctl h k rpdev omx (OMX_IOCCONNECT h) arg umem R
           = (case rpmsg_omx_connect h k rpdev omx (take 47 umem @ [0]) of
                (r, tx, omx') \<Rightarrow> (r, tx, omx', R))"
  proof -
    have nr: "\<not> OMX_IOC_MAXNR h < IOC_NR (OMX_IOCCONNECT h)"
      using assms(2) by (simp add: not_less)
    have len: "\<not> length umem < 48" using assms(3) by simp
    show ?thesis
      unfolding rpmsg_omx_ioctl_def Let_def buf
      by (simp only: assms(1) nr len if_True if_False not_True_eq_False not_False_eq_True
            simp_thms)
  qed
  have sl: "strlen (take 47 umem @ [0]) = 47"
       "takeWhile (\<lambda>c. c \<noteq> 0) (take 47 umem @ [0]) = take 47 umem"
    using assms(3,4) by (rule strlen_too_long)+
  have "\<exists>msg. fst (snd (rpmsg_omx_ioctl h k rpdev omx (OMX_IOCCONNECT h) arg umem R)) = [msg]
                     \<and> tx_type msg = OMX_CONN_REQ \<and> tx_len msg = 48
                     \<and> take 48 (tx_data msg) = take 47 umem @ [0]"
    if "state omx = OMX_UNCONNECTED" "rpmsg_send_err k = None" "48 \<le> sizeof_omx_conn_req h"
  proof -
    have r: "replicate (sizeof_omx_conn_req h - 47) (0::u8)
               = 0 # replicate (sizeof_omx_conn_req h - 48) 0"
      using that(3) by (cases "sizeof_omx_conn_req h - 47") auto
    show ?thesis
      using that assms(3)
      by (simp add: io rpmsg_omx_connect_def Let_def sl r split: prod.splits)
  qed
  then show ?thesis using io sl(1) by blast
qed

theorem ioctl_connect_truncates_name_witness:
  "IOC_TYPE (OMX_IOCCONNECT omap_h) = OMX_IOC_MAGIC omap_h
   \<and> IOC_NR (OMX_IOCCONNECT omap_h) \<le> OMX_IOC_MAXNR omap_h
   \<and> 48 \<le> length name_long \<and> 0 \<notin> set (take 48 name_long)
   \<and> rpmsg_omx_ioctl omap_h kenv_reply ch0 (omx_new 5) (OMX_IOCCONNECT omap_h) 0 name_long held_none
       = (case rpmsg_omx_connect omap_h kenv_reply ch0 (omx_new 5) (take 47 name_long @ [0]) of
            (r, tx, omx') \<Rightarrow> (r, tx, omx', held_none))
   \<and> strlen (take 47 name_long @ [0]) = 47"
proof -
  have 1: "IOC_TYPE (OMX_IOCCONNECT omap_h) = OMX_IOC_MAGIC omap_h" by code_simp
  have 2: "IOC_NR (OMX_IOCCONNECT omap_h) \<le> OMX_IOC_MAXNR omap_h" by code_simp
  have 3: "48 \<le> length name_long" by code_simp
  have 4: "0 \<notin> set (take 48 name_long)" by code_simp
  show ?thesis
    using ioctl_connect_truncates_name
            [OF 1 2 3 4, of kenv_reply ch0 "omx_new 5" 0 held_none] 1 2 3 4
    by blast
qed

subsection \<open>The outcome of a connect that waits\<close>

text \<open>
  C7 (as stated, refuted): a connect during which no connect response arrives and no
  crash occurs would return the timeout error. On a new instance, a signal that arrives
  during the wait makes the connect return \<open>-ERESTARTSYS\<close> (the premature wakeup
  of line 399), the state still unconnected; and when \<open>rpmsg_send_offchannel\<close>
  fails, the connect returns that error without waiting at all. In neither run is there
  a connect response or a crash.
\<close>

theorem connect_without_reply_counterexample:
  "events kenv_signal = [Signal]
   \<and> rpmsg_omx_connect omap_h kenv_signal ch0 (omx_new 5) [0x61, 0]
       = (Err ERESTARTSYS,
          [\<lparr>tx_src = 5, tx_dst = 60, tx_type = OMX_CONN_REQ, tx_flags = 0, tx_len = 2,
            tx_data = 0x61 # replicate 47 0\<rparr>],
          omx_new 5)
   \<and> fst (rpmsg_omx_connect omap_h kenv_signal ch0 (omx_new 5) [0x61, 0]) \<noteq> Err ETIMEDOUT
   \<and> events kenv_send_fails = []
   \<and> fst (rpmsg_omx_connect omap_h kenv_send_fails ch0 (omx_new 5) [0x61, 0]) = Err (EEXT 12)
   \<and> fst (rpmsg_omx_connect omap_h kenv_send_fails ch0 (omx_new 5) [0x61, 0]) \<noteq> Err ETIMEDOUT
   \<and> snd (snd (rpmsg_omx_connect omap_h kenv_send_fails ch0 (omx_new 5) [0x61, 0])) = omx_new 5"
proof -
  have ev: "events kenv_signal = [Signal]" "events kenv_send_fails = []"
    by (simp_all add: kenv_signal_def kenv_send_fails_def kenv_ok_def)
  have sig: "rpmsg_omx_connect omap_h kenv_signal ch0 (omx_new 5) [0x61, 0]
       = (Err ERESTARTSYS,
          [\<lparr>tx_src = 5, tx_dst = 60, tx_type = OMX_CONN_REQ, tx_flags = 0, tx_len = 2,
            tx_data = 0x61 # replicate 47 0\<rparr>],
          omx_new 5)"
    by code_simp
  have snd_fail:
    "fst (rpmsg_omx_connect omap_h kenv_send_fails ch0 (omx_new 5) [0x61, 0]) = Err (EEXT 12)"
    "snd (snd (rpmsg_omx_connect omap_h kenv_send_fails ch0 (omx_new 5) [0x61, 0])) = omx_new 5"
    by code_simp+
  show ?thesis
    by (simp add: ev sig snd_fail)
qed

text \<open>
  C7 (amended): take any instance reached from open by any sequence of calls, whose state
  is unconnected, and a connect on it whose request is sent without error. If during the
  five seconds no connect response is taken by the callback, no crash happens and no
  signal arrives, the connect returns \<open>-ETIMEDOUT\<close> and the state is still
  unconnected. If the state is failed when the wait is over, whatever happened during the
  wait, the connect returns \<open>-ENXIO\<close>.
\<close>

theorem connect_timeout_or_disconnected:
  assumes "omx = fst (omx_run h cs (omx_new a, R))"
      and "state omx = OMX_UNCONNECTED"
      and "rpmsg_send_err k = None"
      and "strlen omxname + 1 \<le> sizeof_omx_conn_req h"
  shows "(list_all (quiet h) (events k) \<longrightarrow>
            fst (rpmsg_omx_connect h k rpdev omx omxname) = Err ETIMEDOUT
            \<and> state (snd (snd (rpmsg_omx_connect h k rpdev omx omxname))) = OMX_UNCONNECTED)
       \<and> (state (snd (snd (rpmsg_omx_connect h k rpdev omx omxname))) = OMX_FAIL \<longrightarrow>
            fst (rpmsg_omx_connect h k rpdev omx omxname) = Err ENXIO)"
proof -
  have "idle omx"
    using run_idle [of "(omx_new a, R)" h cs] assms(1) by (simp add: new_idle)
  then have z: "reply_arrived omx = 0" using assms(2) by (simp add: idle_def)
  show ?thesis
    using connect_quiet [OF assms(2) z assms(3,4), where rpdev = rpdev]
          connect_failed [OF _ assms(3,4), where rpdev = rpdev and omx = omx] assms(2)
    by auto
qed

theorem connect_timeout_or_disconnected_witness:
  "omx_new 5 = fst (omx_run omap_h [CallPoll] (omx_new 5, held_none))
   \<and> state (omx_new 5) = OMX_UNCONNECTED
   \<and> rpmsg_send_err kenv_quiet = None \<and> rpmsg_send_err kenv_crash = None
   \<and> strlen [0x61, 0] + 1 \<le> sizeof_omx_conn_req omap_h
   \<and> list_all (quiet omap_h) (events kenv_quiet)
   \<and> fst (rpmsg_omx_connect omap_h kenv_quiet ch0 (omx_new 5) [0x61, 0]) = Err ETIMEDOUT
   \<and> state (snd (snd (rpmsg_omx_connect omap_h kenv_quiet ch0 (omx_new 5) [0x61, 0])))
       = OMX_UNCONNECTED
   \<and> state (snd (snd (rpmsg_omx_connect omap_h kenv_crash ch0 (omx_new 5) [0x61, 0]))) = OMX_FAIL
   \<and> fst (rpmsg_omx_connect omap_h kenv_crash ch0 (omx_new 5) [0x61, 0]) = Err ENXIO"
proof -
  have 1: "omx_new 5 = fst (omx_run omap_h [CallPoll] (omx_new 5, held_none))" by code_simp
  have 2: "state (omx_new 5) = OMX_UNCONNECTED" by code_simp
  have 3: "rpmsg_send_err kenv_quiet = None" "rpmsg_send_err kenv_crash = None" by code_simp+
  have 4: "strlen [0x61, 0] + 1 \<le> sizeof_omx_conn_req omap_h" by code_simp
  have 5: "list_all (quiet omap_h) (events kenv_quiet)" by code_simp
  have 6: "state (snd (snd (rpmsg_omx_connect omap_h kenv_crash ch0 (omx_new 5) [0x61, 0])))
             = OMX_FAIL" by code_simp
  show ?thesis
    using connect_timeout_or_disconnected [OF 1 2 3(1) 4, of ch0]
          connect_timeout_or_disconnected [OF 1 2 3(2) 4, of ch0] 1 2 3 4 5 6
    by blast
qed

subsection \<open>A write whose handles cannot be rewritten\<close>

text \<open>
  C8: take a write on an instance that is not unconnected, whose bytes can be copied from
  the caller and whose count and offset fields lie inside the payload area. If the count
  is greater than 3, the write returns \<open>-EINVAL\<close> and nothing is handed to
  \<open>rpmsg_send_offchannel\<close>. If the count is at most 3 and the translation of one of
  the counted handles fails with an error, the handles before it having been translated,
  the write returns that error and nothing is handed to \<open>rpmsg_send_offchannel\<close>.
  And if the translation of any counted handle fails, that handle and those before it
  lying inside the payload area, the write returns the error of a failed handle (the
  first one) and nothing is handed to \<open>rpmsg_send_offchannel\<close>.
\<close>

theorem write_aborts_before_send:
  assumes "state omx \<noteq> OMX_UNCONNECTED"
      and "write_use h len \<le> length umem"
      and "load32 (write_kbuf h stack umem len) (int (offsetof_omx_packet_data h)) = Some maptype"
      and "load32 (write_kbuf h stack umem len) (int (offsetof_omx_packet_data h) + 4)
             = Some offset"
  shows "(3 < maptype \<longrightarrow> rpmsg_omx_write h k omx stack umem len R = (Err EINVAL, [], R))
       \<and> (\<forall>j e. maptype \<le> 3 \<and> j < unat maptype
              \<and> (\<forall>t<j. \<exists>b da.
                    load32 (write_kbuf h stack umem len)
                      (int (offsetof_omx_packet_data h) + sint offset + 4 * int t) = Some b
                    \<and> fst (rpmsg_omx_buffer_get k omx b R) = Inr da)
              \<and> (\<exists>b. load32 (write_kbuf h stack umem len)
                      (int (offsetof_omx_packet_data h) + sint offset + 4 * int j) = Some b
                    \<and> fst (rpmsg_omx_buffer_get k omx b R) = Inl e)
            \<longrightarrow> fst (rpmsg_omx_write h k omx stack umem len R) = Err e
                \<and> fst (snd (rpmsg_omx_write h k omx stack umem len R)) = [])
       \<and> (\<forall>j. maptype \<le> 3 \<and> j < unat maptype
              \<and> (\<forall>t\<le>j. \<exists>b.
                    load32 (write_kbuf h stack umem len)
                      (int (offsetof_omx_packet_data h) + sint offset + 4 * int t) = Some b)
              \<and> (\<exists>b e. load32 (write_kbuf h stack umem len)
                      (int (offsetof_omx_packet_data h) + sint offset + 4 * int j) = Some b
                    \<and> fst (rpmsg_omx_buffer_get k omx b R) = Inl e)
            \<longrightarrow> (\<exists>j0 b0 e0. j0 \<le> j
                   \<and> load32 (write_kbuf h stack umem len)
                         (int (offsetof_omx_packet_data h) + sint offset + 4 * int j0) = Some b0
                   \<and> fst (rpmsg_omx_buffer_get k omx b0 R) = Inl e0
                   \<and> fst (rpmsg_omx_write h k omx stack umem len R) = Err e0
                   \<and> fst (snd (rpmsg_omx_write h k omx stack umem len R)) = []))"
proof (intro conjI)
  show "3 < maptype \<longrightarrow> rpmsg_omx_write h k omx stack umem len R = (Err EINVAL, [], R)"
    using write_bad_count [OF assms, of k R] by blast
  show "\<forall>j e. maptype \<le> 3 \<and> j < unat maptype
              \<and> (\<forall>t<j. \<exists>b da.
                    load32 (write_kbuf h stack umem len)
                      (int (offsetof_omx_packet_data h) + sint offset + 4 * int t) = Some b
                    \<and> fst (rpmsg_omx_buffer_get k omx b R) = Inr da)
              \<and> (\<exists>b. load32 (write_kbuf h stack umem len)
                      (int (offsetof_omx_packet_data h) + sint offset + 4 * int j) = Some b
                    \<and> fst (rpmsg_omx_buffer_get k omx b R) = Inl e)
            \<longrightarrow> fst (rpmsg_omx_write h k omx stack umem len R) = Err e
                \<and> fst (snd (rpmsg_omx_write h k omx stack umem len R)) = []"
    using write_failed_translation [OF assms, of _ k R] by blast
  show "\<forall>j. maptype \<le> 3 \<and> j < unat maptype
              \<and> (\<forall>t\<le>j. \<exists>b.
                    load32 (write_kbuf h stack umem len)
                      (int (offsetof_omx_packet_data h) + sint offset + 4 * int t) = Some b)
              \<and> (\<exists>b e. load32 (write_kbuf h stack umem len)
                      (int (offsetof_omx_packet_data h) + sint offset + 4 * int j) = Some b
                    \<and> fst (rpmsg_omx_buffer_get k omx b R) = Inl e)
            \<longrightarrow> (\<exists>j0 b0 e0. j0 \<le> j
                   \<and> load32 (write_kbuf h stack umem len)
                         (int (offsetof_omx_packet_data h) + sint offset + 4 * int j0) = Some b0
                   \<and> fst (rpmsg_omx_buffer_get k omx b0 R) = Inl e0
                   \<and> fst (rpmsg_omx_write h k omx stack umem len R) = Err e0
                   \<and> fst (snd (rpmsg_omx_write h k omx stack umem len R)) = [])"
  proof (intro allI impI)
    fix j
    assume H: "maptype \<le> 3 \<and> j < unat maptype
              \<and> (\<forall>t\<le>j. \<exists>b.
                    load32 (write_kbuf h stack umem len)
                      (int (offsetof_omx_packet_data h) + sint offset + 4 * int t) = Some b)
              \<and> (\<exists>b e. load32 (write_kbuf h stack umem len)
                      (int (offsetof_omx_packet_data h) + sint offset + 4 * int j) = Some b
                    \<and> fst (rpmsg_omx_buffer_get k omx b R) = Inl e)"
    then obtain bj e where
      bj: "load32 (write_kbuf h stack umem len)
             (int (offsetof_omx_packet_data h) + sint offset + 4 * int j) = Some bj"
          "fst (rpmsg_omx_buffer_get k omx bj R) = Inl e"
      by blast
    from H have le3: "maptype \<le> 3" and j: "j < unat maptype"
      and inb: "\<forall>t\<le>j. \<exists>b. load32 (write_kbuf h stack umem len)
                      (int (offsetof_omx_packet_data h) + sint offset + 4 * int t) = Some b"
      by blast+
    show "\<exists>j0 b0 e0. j0 \<le> j
                   \<and> load32 (write_kbuf h stack umem len)
                         (int (offsetof_omx_packet_data h) + sint offset + 4 * int j0) = Some b0
                   \<and> fst (rpmsg_omx_buffer_get k omx b0 R) = Inl e0
                   \<and> fst (rpmsg_omx_write h k omx stack umem len R) = Err e0
                   \<and> fst (snd (rpmsg_omx_write h k omx stack umem len R)) = []"
      by (rule write_any_failed_translation [OF assms le3 j inb bj])
  qed
qed

theorem write_aborts_before_send_witness:
  "state omx_connected \<noteq> OMX_UNCONNECTED
   \<and> write_use omap_h 32 \<le> length umem_count4
   \<and> load32 (write_kbuf omap_h stack0 umem_count4 32) (int (offsetof_omx_packet_data omap_h))
       = Some 4
   \<and> load32 (write_kbuf omap_h stack0 umem_count4 32) (int (offsetof_omx_packet_data omap_h) + 4)
       = Some 8
   \<and> rpmsg_omx_write omap_h kenv_ok omx_connected stack0 umem_count4 32 held_none
       = (Err EINVAL, [], held_none)
   \<and> write_use omap_h 32 \<le> length umem_unpinned
   \<and> load32 (write_kbuf omap_h stack0 umem_unpinned 32) (int (offsetof_omx_packet_data omap_h))
       = Some 1
   \<and> load32 (write_kbuf omap_h stack0 umem_unpinned 32)
         (int (offsetof_omx_packet_data omap_h) + 4) = Some 8
   \<and> load32 (write_kbuf omap_h stack0 umem_unpinned 32)
         (int (offsetof_omx_packet_data omap_h) + sint (8 :: u32) + 4 * int 0) = Some 9
   \<and> fst (rpmsg_omx_buffer_get kenv_ok omx_connected 9 held_none) = Inl EIO
   \<and> fst (rpmsg_omx_write omap_h kenv_ok omx_connected stack0 umem_unpinned 32 held_none)
       = Err EIO
   \<and> fst (snd (rpmsg_omx_write omap_h kenv_ok omx_connected stack0 umem_unpinned 32 held_none))
       = []"
proof -
  have 1: "state omx_connected \<noteq> OMX_UNCONNECTED"
    by (simp add: omx_connected_def)
  have 2: "write_use omap_h 32 \<le> length umem_count4"
    by (simp add: write_use_def umem_count4_def)
  have 3: "load32 (write_kbuf omap_h stack0 umem_count4 32)
             (int (offsetof_omx_packet_data omap_h)) = Some 4"
    unfolding kbuf_count4 omap_data_off by (simp add: load32_def umem_count4_def nth_append)
  have 4: "load32 (write_kbuf omap_h stack0 umem_count4 32)
             (int (offsetof_omx_packet_data omap_h) + 4) = Some 8"
    unfolding kbuf_count4 omap_data_off by (simp add: load32_def umem_count4_def nth_append)
  have 5: "write_use omap_h 32 \<le> length umem_unpinned"
    by (simp add: write_use_def umem_unpinned_def)
  have 6: "load32 (write_kbuf omap_h stack0 umem_unpinned 32)
             (int (offsetof_omx_packet_data omap_h)) = Some 1"
    unfolding kbuf_unpinned omap_data_off by (simp add: load32_def umem_unpinned_def nth_append)
  have 7: "load32 (write_kbuf omap_h stack0 umem_unpinned 32)
             (int (offsetof_omx_packet_data omap_h) + 4) = Some 8"
    unfolding kbuf_unpinned omap_data_off by (simp add: load32_def umem_unpinned_def nth_append)
  have 8: "load32 (write_kbuf omap_h stack0 umem_unpinned 32)
             (int (offsetof_omx_packet_data omap_h) + sint (8 :: u32) + 4 * int 0) = Some 9"
    unfolding kbuf_unpinned omap_data_off by (simp add: load32_def umem_unpinned_def nth_append)
  have 9: "fst (rpmsg_omx_buffer_get kenv_ok omx_connected 9 held_none) = Inl EIO"
    by (simp add: rpmsg_omx_buffer_get_def rpmsg_omx_dma_find_def idr_find_def
          omx_connected_def omx_new_def Let_def)
  have "(3::u32) < 4" by simp
  then have a: "rpmsg_omx_write omap_h kenv_ok omx_connected stack0 umem_count4 32 held_none
             = (Err EINVAL, [], held_none)"
    by (rule write_aborts_before_send [OF 1 2 3 4, of kenv_ok held_none, THEN conjunct1, THEN mp])
  have pre: "(1::u32) \<le> 3 \<and> 0 < unat (1::u32)
      \<and> (\<forall>t<0::nat. \<exists>b da.
            load32 (write_kbuf omap_h stack0 umem_unpinned 32)
              (int (offsetof_omx_packet_data omap_h) + sint (8 :: u32) + 4 * int t) = Some b
            \<and> fst (rpmsg_omx_buffer_get kenv_ok omx_connected b held_none) = Inr da)
      \<and> (\<exists>b. load32 (write_kbuf omap_h stack0 umem_unpinned 32)
              (int (offsetof_omx_packet_data omap_h) + sint (8 :: u32) + 4 * int 0) = Some b
            \<and> fst (rpmsg_omx_buffer_get kenv_ok omx_connected b held_none) = Inl EIO)"
    using 8 9 by simp
  have b: "fst (rpmsg_omx_write omap_h kenv_ok omx_connected stack0 umem_unpinned 32 held_none)
             = Err EIO
           \<and> fst (snd (rpmsg_omx_write omap_h kenv_ok omx_connected stack0 umem_unpinned 32
                          held_none)) = []"
    using pre
    by (rule write_aborts_before_send [OF 1 5 6 7, of kenv_ok held_none, THEN conjunct2,
              THEN conjunct1, THEN spec, THEN spec, THEN mp])
  show ?thesis
    by (intro conjI 1 2 3 4 5 6 7 8 9 a b [THEN conjunct1] b [THEN conjunct2])
qed

subsection \<open>A pin that fails\<close>

text \<open>
  C9: whenever \<open>rpmsg_omx_pin_buffer\<close> returns an error, the instance (its registry
  included) and everything held of the buffer-sharing resources (the allocation, the
  buffer reference, the attachment, the mapping) are exactly as before the call; and a
  pin of a handle that is already registered does return an error.
\<close>

theorem pin_failure_unwinds_everything:
  "(\<forall>e omx' R'. rpmsg_omx_pin_buffer k fd omx R = (Err e, omx', R') \<longrightarrow> omx' = omx \<and> R' = R)
   \<and> (fd \<in> fst ` set (dma_idr omx)
        \<longrightarrow> (\<exists>e. rpmsg_omx_pin_buffer k fd omx R = (Err e, omx, R)))"
  using pin_unwinds [of k fd omx R] pin_result [of k fd omx R] by blast

theorem pin_failure_unwinds_everything_witness:
  "4 \<in> fst ` set (dma_idr omx_pinned)
   \<and> rpmsg_omx_pin_buffer kenv_ok 4 omx_pinned held_pinned = (Err EINVAL, omx_pinned, held_pinned)"
proof -
  have m: "4 \<in> fst ` set (dma_idr omx_pinned)" by code_simp
  have e: "fst (rpmsg_omx_pin_buffer kenv_ok 4 omx_pinned held_pinned) = Err EINVAL"
    by code_simp
  obtain e' where "rpmsg_omx_pin_buffer kenv_ok 4 omx_pinned held_pinned
                     = (Err e', omx_pinned, held_pinned)"
    using pin_failure_unwinds_everything [of kenv_ok 4 omx_pinned held_pinned] m by blast
  then show ?thesis using m e by simp
qed

subsection \<open>The readiness query\<close>

text \<open>
  C10: while the state is not failed, poll reports readable (\<open>POLLIN\<close> and
  \<open>POLLRDNORM\<close>) exactly when the queue is not empty and always reports writable
  (\<open>POLLOUT\<close> and \<open>POLLWRNORM\<close>), without the error bit; once the state is
  failed the mask is \<open>POLLERR\<close> alone, the readable and writable bits suppressed.
\<close>

theorem poll_readiness:
  "(state omx \<noteq> OMX_FAIL \<longrightarrow>
      ((rpmsg_omx_poll omx AND POLLIN \<noteq> 0) = (queue omx \<noteq> []))
      \<and> ((rpmsg_omx_poll omx AND POLLRDNORM \<noteq> 0) = (queue omx \<noteq> []))
      \<and> rpmsg_omx_poll omx AND POLLOUT \<noteq> 0
      \<and> rpmsg_omx_poll omx AND POLLWRNORM \<noteq> 0
      \<and> rpmsg_omx_poll omx AND POLLERR = 0)
   \<and> (state omx = OMX_FAIL \<longrightarrow>
      rpmsg_omx_poll omx = POLLERR
      \<and> rpmsg_omx_poll omx AND POLLIN = 0
      \<and> rpmsg_omx_poll omx AND POLLRDNORM = 0
      \<and> rpmsg_omx_poll omx AND POLLOUT = 0
      \<and> rpmsg_omx_poll omx AND POLLWRNORM = 0)"
  by (simp add: rpmsg_omx_poll_def POLLIN_def POLLOUT_def POLLERR_def POLLRDNORM_def
        POLLWRNORM_def)

theorem poll_readiness_witness:
  "state omx_connected \<noteq> OMX_FAIL \<and> queue omx_connected = []
   \<and> rpmsg_omx_poll omx_connected = POLLOUT OR POLLWRNORM
   \<and> state omx_crashed = OMX_FAIL \<and> queue omx_crashed \<noteq> []
   \<and> rpmsg_omx_poll omx_crashed = POLLERR"
  using poll_readiness [of omx_connected] poll_readiness [of omx_crashed]
  by (simp add: omx_crashed_eq omx_connected_def omx_new_def rpmsg_omx_poll_def)

end
